theory Spec2Isabelle
  imports Main "HOL-Library.Word"
begin

unbundle bit_operations_syntax

section \<open>The DeltaRPM reader of drpm (src/drpm_read.c)\<close>

text \<open>
  A shallow embedding of \<^verbatim>\<open>drpm_read.c\<close>: the byte-order readers, the body parser
  \<^verbatim>\<open>readdelta_rest\<close>, the two header readers, the entry point \<^verbatim>\<open>read_deltarpm\<close>
  and the projection \<^verbatim>\<open>deltarpm_to_drpm\<close>. C's fixed-width integers are words,
  so that every \<^verbatim>\<open>+\<close>, \<^verbatim>\<open>-\<close> and \<^verbatim>\<open>*\<close> wraps as it does in the program.
\<close>

type_synonym u8 = "8 word"
type_synonym u16 = "16 word"
type_synonym u32 = "32 word"
type_synonym u64 = "64 word"

subsection \<open>Error codes and constants\<close>

datatype drpm_err =
  DRPM_ERR_OK | DRPM_ERR_MEMORY | DRPM_ERR_IO | DRPM_ERR_FORMAT
  | DRPM_ERR_OVERFLOW | DRPM_ERR_PROG

datatype drpm_type = DRPM_TYPE_STANDARD | DRPM_TYPE_RPMONLY

definition MAGIC_DRPM :: u32 where
  "MAGIC_DRPM = 0x6472706D"

definition MAGIC_DLT :: "u32 \<Rightarrow> bool" where
  "MAGIC_DLT x \<longleftrightarrow> drop_bit 8 x = 0x444C54"

definition MAGIC_DLT3 :: "u32 \<Rightarrow> bool" where
  "MAGIC_DLT3 x \<longleftrightarrow> x = 0x444C5433"

definition MD5_DIGEST_LENGTH :: u32 where
  "MD5_DIGEST_LENGTH = 16"

definition INT32_MIN :: u32 where
  "INT32_MIN = 0x80000000"

subsection \<open>The signed-magnitude decoder\<close>

text \<open>
  Modelled from the spec: the macro \<^verbatim>\<open>TWOS_COMPLEMENT\<close> of \<^verbatim>\<open>drpm_private.h\<close>, which is
  not among the sources. Section 4.2 of the specification says that the decoded value is
  the arithmetic negation of its argument, stored in two's-complement representation in
  the same 32-bit slot: the bitwise complement plus one.
\<close>

definition TWOS_COMPLEMENT :: "u32 \<Rightarrow> u32" where
  "TWOS_COMPLEMENT x = NOT x + 1"

text \<open>
  The two statements that follow the read of an odd offadj word (lines 205-206) and of
  an even external-copy word (lines 267-268):
  \<^verbatim>\<open>if ((w & INT32_MIN) != 0) w = TWOS_COMPLEMENT(w ^ INT32_MIN);\<close>
\<close>

definition decode_signed :: "u32 \<Rightarrow> u32" where
  "decode_signed w =
     (if w AND INT32_MIN \<noteq> 0 then TWOS_COMPLEMENT (w XOR INT32_MIN) else w)"

subsection \<open>Byte order\<close>

text \<open>
  Modelled from the spec: \<^verbatim>\<open>parse_be32\<close> and \<^verbatim>\<open>parse_be64\<close> of \<^verbatim>\<open>drpm_utils.c\<close>, which are
  not among the sources. Section 4.1: the bytes are interpreted as a big-endian unsigned
  integer, the first byte being the most significant.
\<close>

definition parse_be32 :: "u8 list \<Rightarrow> u32" where
  "parse_be32 buffer = foldl (\<lambda>acc b. push_bit 8 acc OR ucast b) 0 buffer"

definition parse_be64 :: "u8 list \<Rightarrow> u64" where
  "parse_be64 buffer = foldl (\<lambda>acc b. push_bit 8 acc OR ucast b) 0 buffer"

subsection \<open>The records\<close>

text \<open>
  The handle of the RPM collaborator: what \<^verbatim>\<open>rpm_get_comp\<close>, \<^verbatim>\<open>rpm_size_full\<close> and
  \<^verbatim>\<open>rpm_get_nevr\<close> answer for it.
\<close>

record rpm =
  rpm_get_comp :: "drpm_err + u16"
  rpm_size_full :: u64
  rpm_get_nevr :: "drpm_err + u8 list"

text \<open>The union \<^verbatim>\<open>head\<close>; \<open>HEAD_NULL\<close> is the all-zero union.\<close>

datatype head_union = HEAD_NULL | TGT_RPM rpm | TGT_NEVR "u8 list"

text \<open>
  A table of 32-bit words on the heap: the number of bytes that was asked of
  \<^verbatim>\<open>malloc\<close>, and the words written so far, by index. A cell that was never written
  (the block is not initialised) has no value.
\<close>

record table =
  tab_bytes :: nat
  tab_cells :: "nat \<rightharpoonup> u32"

text \<open>
  \<^verbatim>\<open>struct deltarpm\<close>, with the fields this file uses. A pointer is an option,
  \<open>None\<close> being \<^verbatim>\<open>NULL\<close>; a byte buffer holds the bytes written into it.
\<close>

record deltarpm =
  filename :: "string option"
  type :: drpm_type
  comp :: u16
  head :: head_union
  version :: u32
  src_nevr :: "u8 list option"
  sequence :: "u8 list option"
  sequence_len :: u32
  tgt_md5 :: "u8 list"
  tgt_size :: u32
  tgt_comp :: u16
  tgt_comp_level :: u16
  tgt_comp_param_len :: u32
  tgt_comp_param :: "u8 list option"
  tgt_header_len :: u32
  offadj_elems :: "table option"
  offadj_elems_count :: u32
  tgt_leadsig :: "u8 list option"
  tgt_leadsig_len :: u32
  payload_fmt_off :: u32
  int_copies :: "table option"
  int_copies_count :: u32
  ext_copies :: "table option"
  ext_copies_count :: u32
  ext_data_len :: u64
  add_data :: "u8 list option"
  add_data_len :: u32
  int_data_len :: u64
  int_data :: "u8 list option"
  int_data_as_ptrs :: bool

text \<open>The record \<^verbatim>\<open>{0}\<close>.\<close>

definition delta_init :: deltarpm where
  "delta_init =
     \<lparr>filename = None, type = DRPM_TYPE_STANDARD, comp = 0, head = HEAD_NULL, version = 0,
      src_nevr = None, sequence = None, sequence_len = 0, tgt_md5 = replicate 16 0,
      tgt_size = 0, tgt_comp = 0, tgt_comp_level = 0, tgt_comp_param_len = 0,
      tgt_comp_param = None, tgt_header_len = 0, offadj_elems = None,
      offadj_elems_count = 0, tgt_leadsig = None, tgt_leadsig_len = 0, payload_fmt_off = 0,
      int_copies = None, int_copies_count = 0, ext_copies = None, ext_copies_count = 0,
      ext_data_len = 0, add_data = None, add_data_len = 0, int_data_len = 0,
      int_data = None, int_data_as_ptrs = False\<rparr>"

subsection \<open>The environment and the state\<close>

text \<open>
  A file that \<^verbatim>\<open>open\<close> can open is either a regular file with its bytes, or an object
  such as a directory, on which every \<^verbatim>\<open>read\<close> fails.
\<close>

datatype fobj = Regular "u8 list" | Unreadable

text \<open>
  What the program takes from outside this file: the file system, the allocator (whether
  a request of \<open>n\<close> bytes is granted), the decompressor (which algorithm it detects on the
  bytes left in the file, and the decompressed bytes), the decoder of the packed
  compression word, the RPM reader, and the constants \<^verbatim>\<open>MAGIC_RPM\<close>,
  \<^verbatim>\<open>RPM_LEADSIG_MIN_LEN\<close> and \<^verbatim>\<open>SIZE_MAX\<close> of the headers.
\<close>

record env =
  fs_open :: "string \<Rightarrow> fobj option"
  malloc_ok :: "nat \<Rightarrow> bool"
  strm_detect :: "u8 list \<Rightarrow> drpm_err + (u16 \<times> u8 list)"
  deltarpm_decode_comp :: "u32 \<Rightarrow> (u16 \<times> u16) option"
  rpm_read :: "string \<Rightarrow> drpm_err + rpm"
  MAGIC_RPM :: u32
  RPM_LEADSIG_MIN_LEN :: u32
  SIZE_MAX :: nat

text \<open>
  The state that the functions of this file read and change: the file descriptor
  (its file, its position, whether it is open), the decompression stream (the bytes not
  yet consumed, whether the stream object exists), the number of live heap blocks that
  this file has allocated, the record \<^verbatim>\<open>*delta\<close>, and the local \<^verbatim>\<open>add_data_len\<close> of
  \<^verbatim>\<open>readdelta_rest\<close>.
\<close>

record state =
  fd_obj :: fobj
  fd_pos :: nat
  fd_open :: bool
  strm :: "u8 list"
  strm_live :: bool
  heap :: nat
  delta :: deltarpm
  l_add_data_len :: u32

subsection \<open>System calls and collaborators\<close>

text \<open>\<^verbatim>\<open>read(filedesc, buffer, n)\<close>: \<open>None\<close> is the result \<^verbatim>\<open>-1\<close>.\<close>

definition sys_read :: "nat \<Rightarrow> state \<Rightarrow> u8 list option \<times> state" where
  "sys_read n s =
     (case fd_obj s of
        Unreadable \<Rightarrow> (None, s)
      | Regular bs \<Rightarrow>
          (let chunk = take n (drop (fd_pos s) bs)
           in (Some chunk, s\<lparr>fd_pos := fd_pos s + length chunk\<rparr>)))"

text \<open>
  \<^verbatim>\<open>lseek(filedesc, offset, SEEK_SET)\<close>, the offset being an \<^verbatim>\<open>off_t\<close>: it fails on a
  negative offset.
\<close>

definition sys_lseek :: "u64 \<Rightarrow> state \<Rightarrow> state option" where
  "sys_lseek off s = (if sint off < 0 then None else Some (s\<lparr>fd_pos := unat off\<rparr>))"

text \<open>
  \<^verbatim>\<open>malloc(n)\<close>: the answer says whether the pointer is not \<^verbatim>\<open>NULL\<close>; a granted
  block is counted.
\<close>

definition malloc :: "env \<Rightarrow> nat \<Rightarrow> state \<Rightarrow> bool \<times> state" where
  "malloc env n s =
     (if malloc_ok env n then (True, s\<lparr>heap := heap s + 1\<rparr>) else (False, s))"

text \<open>
  Modelled from the spec: the decompression stream of \<^verbatim>\<open>drpm_decompstrm.c\<close>, which is
  not among the sources. Section 6: \<^verbatim>\<open>decompstrm_init\<close> constructs the stream over the
  file descriptor, detects the algorithm and stores it; \<^verbatim>\<open>decompstrm_read\<close> reads
  exactly \<open>n\<close> bytes, and any short read is a format error; \<^verbatim>\<open>decompstrm_read_be32\<close> and
  \<^verbatim>\<open>decompstrm_read_be64\<close> are the wrappers for one big-endian integer;
  \<^verbatim>\<open>decompstrm_destroy\<close> releases the stream.
\<close>

definition decompstrm_init :: "env \<Rightarrow> state \<Rightarrow> drpm_err \<times> state" where
  "decompstrm_init env s =
     (case fd_obj s of
        Unreadable \<Rightarrow> (DRPM_ERR_IO, s)
      | Regular bs \<Rightarrow>
          (case strm_detect env (drop (fd_pos s) bs) of
             Inl e \<Rightarrow> (e, s)
           | Inr (c, bytes) \<Rightarrow>
               (DRPM_ERR_OK,
                s\<lparr>strm := bytes, strm_live := True, delta := (delta s)\<lparr>comp := c\<rparr>\<rparr>)))"

definition strm_take :: "nat \<Rightarrow> u8 list \<Rightarrow> drpm_err + (u8 list \<times> u8 list)" where
  "strm_take n bs =
     (if length bs < n then Inl DRPM_ERR_FORMAT else Inr (take n bs, drop n bs))"

definition decompstrm_read :: "nat \<Rightarrow> state \<Rightarrow> drpm_err + (u8 list \<times> state)" where
  "decompstrm_read n s =
     (case strm_take n (strm s) of
        Inl e \<Rightarrow> Inl e
      | Inr (bytes, rest) \<Rightarrow> Inr (bytes, s\<lparr>strm := rest\<rparr>))"

definition decompstrm_read_be32 :: "state \<Rightarrow> drpm_err + (u32 \<times> state)" where
  "decompstrm_read_be32 s =
     (case decompstrm_read 4 s of
        Inl e \<Rightarrow> Inl e
      | Inr (bytes, s') \<Rightarrow> Inr (parse_be32 bytes, s'))"

definition decompstrm_read_be64 :: "state \<Rightarrow> drpm_err + (u64 \<times> state)" where
  "decompstrm_read_be64 s =
     (case decompstrm_read 8 s of
        Inl e \<Rightarrow> Inl e
      | Inr (bytes, s') \<Rightarrow> Inr (parse_be64 bytes, s'))"

definition decompstrm_destroy :: "state \<Rightarrow> state" where
  "decompstrm_destroy s = s\<lparr>strm := [], strm_live := False\<rparr>"

subsection \<open>\<^verbatim>\<open>read_be32\<close> and \<^verbatim>\<open>read_be64\<close>\<close>

definition read_be32 :: "state \<Rightarrow> (drpm_err + u32) \<times> state" where
  "read_be32 s =
     (case sys_read 4 s of
        (None, s') \<Rightarrow> (Inl DRPM_ERR_IO, s')
      | (Some buffer, s') \<Rightarrow>
          if length buffer = 4 then (Inr (parse_be32 buffer), s')
          else (Inl DRPM_ERR_FORMAT, s'))"

definition read_be64 :: "state \<Rightarrow> (drpm_err + u64) \<times> state" where
  "read_be64 s =
     (case sys_read 8 s of
        (None, s') \<Rightarrow> (Inl DRPM_ERR_IO, s')
      | (Some buffer, s') \<Rightarrow>
          if length buffer = 8 then (Inr (parse_be64 buffer), s')
          else (Inl DRPM_ERR_FORMAT, s'))"

subsection \<open>Sequencing\<close>

text \<open>
  Every step of the parsers returns its error code and the state it leaves. A step whose
  code is not \<^verbatim>\<open>DRPM_ERR_OK\<close> jumps to the clean-up label (or returns): the steps after
  it do not run.
\<close>

definition andthen ::
  "(state \<Rightarrow> drpm_err \<times> state) \<Rightarrow> (state \<Rightarrow> drpm_err \<times> state) \<Rightarrow> state \<Rightarrow> drpm_err \<times> state"
where
  "andthen p q s = (case p s of (e, s') \<Rightarrow> if e = DRPM_ERR_OK then q s' else (e, s'))"

subsection \<open>The loops over the tables\<close>

definition strm_be32 :: "u8 list \<Rightarrow> drpm_err + (u32 \<times> u8 list)" where
  "strm_be32 bs =
     (case strm_take 4 bs of
        Inl e \<Rightarrow> Inl e
      | Inr (bytes, rest) \<Rightarrow> Inr (parse_be32 bytes, rest))"

text \<open>
  One of the loops
  \<^verbatim>\<open>for (uint32_t i = i0; i < sz; i += 2) { read tab[i]; tab[i] = post(tab[i]); }\<close>
  over the decompressed bytes \<open>bs\<close> and the cells of the table. The index is a 32-bit
  word and \<^verbatim>\<open>i += 2\<close> wraps; the loop ends at the latest when the stream is exhausted.
\<close>

function read_column ::
  "(u32 \<Rightarrow> u32) \<Rightarrow> u32 \<Rightarrow> u32 \<Rightarrow> u8 list \<Rightarrow> (nat \<rightharpoonup> u32) \<Rightarrow> drpm_err \<times> u8 list \<times> (nat \<rightharpoonup> u32)"
where
  "read_column post sz i bs cells =
     (if i < sz then
        (case strm_be32 bs of
           Inl e \<Rightarrow> (e, bs, cells)
         | Inr (w, rest) \<Rightarrow> read_column post sz (i + 2) rest (cells(unat i \<mapsto> post w)))
      else (DRPM_ERR_OK, bs, cells))"
  by pat_completeness auto
termination
  by (relation "measure (\<lambda>(post, sz, i, bs, cells). length bs)")
     (auto simp: strm_be32_def strm_take_def split: if_splits)

declare read_column.simps [simp del]

text \<open>
  The two loops of a table, one after the other: the first fills the even cells, the
  second the odd cells.
\<close>

definition read_table ::
  "(u32 \<Rightarrow> u32) \<Rightarrow> (u32 \<Rightarrow> u32) \<Rightarrow> u32 \<Rightarrow> u8 list \<Rightarrow> drpm_err \<times> u8 list \<times> (nat \<rightharpoonup> u32)"
where
  "read_table post_even post_odd sz bs =
     (case read_column post_even sz 0 bs Map.empty of
        (e, bs1, cells1) \<Rightarrow>
          if e \<noteq> DRPM_ERR_OK then (e, bs1, cells1)
          else read_column post_odd sz 1 bs1 cells1)"

text \<open>
  The block that the three tables share: \<^verbatim>\<open>tab = malloc(sz * 4)\<close>, the product
  being a 32-bit one, then the two loops. \<open>store\<close> writes the pointer into its field
  of the record.
\<close>

definition read_table_into ::
  "env \<Rightarrow> (table option \<Rightarrow> deltarpm \<Rightarrow> deltarpm) \<Rightarrow> (u32 \<Rightarrow> u32) \<Rightarrow> (u32 \<Rightarrow> u32) \<Rightarrow> u32 \<Rightarrow>
   state \<Rightarrow> drpm_err \<times> state"
where
  "read_table_into env store post_even post_odd sz s =
     (case malloc env (unat (sz * 4)) s of
        (False, s1) \<Rightarrow> (DRPM_ERR_MEMORY, s1\<lparr>delta := store None (delta s1)\<rparr>)
      | (True, s1) \<Rightarrow>
          (case read_table post_even post_odd sz (strm s1) of
             (e, bs, cells) \<Rightarrow>
               (e, s1\<lparr>strm := bs,
                       delta := store (Some \<lparr>tab_bytes = unat (sz * 4), tab_cells = cells\<rparr>)
                                  (delta s1)\<rparr>)))"

text \<open>
  \<^verbatim>\<open>tab[i]\<close> as the walks read it. They read below the size of the table only, where the table
  exists and every cell has been written.
\<close>

definition table_word :: "table option \<Rightarrow> nat \<Rightarrow> u32" where
  "table_word t i =
     (case t of
        None \<Rightarrow> 0
      | Some tab \<Rightarrow> (case tab_cells tab i of None \<Rightarrow> 0 | Some w \<Rightarrow> w))"

text \<open>
  The walk over the internal copies (lines 333-340), \<^verbatim>\<open>int_copies_size\<close> being
  \<^verbatim>\<open>count * 2\<close> (line 243).
\<close>

function int_copies_walk :: "(nat \<Rightarrow> u32) \<Rightarrow> u64 \<Rightarrow> u32 \<Rightarrow> u32 \<Rightarrow> u64 \<Rightarrow> drpm_err" where
  "int_copies_walk tab len count i off =
     (if i < count * 2 then
        (let off' = off + ucast (tab (unat i))
         in if off' > len then DRPM_ERR_FORMAT
            else int_copies_walk tab len count (i + 2) off')
      else DRPM_ERR_OK)"
  by pat_completeness auto
termination
proof (relation "measure (\<lambda>(tab, len, count, i, off). unat (count * 2) - unat i)")
  fix tab :: "nat \<Rightarrow> u32" and len off x :: u64 and count i :: u32
  assume lt: "i < count * 2"
  have "unat (count * 2) = (unat count * 2) mod 2 ^ 32"
    by (simp add: unat_word_ariths)
  moreover have "even ((unat count * 2) mod 2 ^ 32)"
    by (rule dvd_mod) simp_all
  ultimately obtain k where "unat (count * 2) = 2 * k"
    by (auto elim: evenE)
  moreover have "unat (count * 2) < 2 ^ 32"
    using unsigned_less [of "count * 2"] by simp
  ultimately have "unat (count * 2) \<le> 2 ^ 32 - 2"
    by simp
  moreover from lt have il: "unat i < unat (count * 2)"
    by (simp add: word_less_nat_alt)
  ultimately have "unat i + 2 < 2 ^ 32"
    by simp
  then have "unat (i + 2) = unat i + 2"
    by (simp add: unat_word_ariths)
  with il show "((tab, len, count, i + 2, x), (tab, len, count, i, off))
      \<in> measure (\<lambda>(tab, len, count, i, off). unat (count * 2) - unat i)"
    by simp
qed simp

declare int_copies_walk.simps [simp del]

text \<open>
  The walk over the external copies (lines 343-355), \<^verbatim>\<open>ext_copies_size\<close> being
  \<^verbatim>\<open>count * 2\<close> (line 244). The first member is added as an \<^verbatim>\<open>int32_t\<close>, that is
  sign-extended to the 64 bits of \<^verbatim>\<open>off\<close>.
\<close>

function ext_copies_walk :: "(nat \<Rightarrow> u32) \<Rightarrow> u64 \<Rightarrow> u32 \<Rightarrow> u32 \<Rightarrow> u64 \<Rightarrow> drpm_err" where
  "ext_copies_walk tab len count i off =
     (if i < count * 2 then
        (let off1 = off + scast (tab (unat i))
         in if off1 > len then DRPM_ERR_FORMAT
            else
              (let off2 = off1 + ucast (tab (unat (i + 1)))
               in if off2 = 0 \<or> off2 > len then DRPM_ERR_FORMAT
                  else ext_copies_walk tab len count (i + 2) off2))
      else DRPM_ERR_OK)"
  by pat_completeness auto
termination
proof (relation "measure (\<lambda>(tab, len, count, i, off). unat (count * 2) - unat i)")
  fix tab :: "nat \<Rightarrow> u32" and len off x :: u64 and count i :: u32
  assume lt: "i < count * 2"
  have "unat (count * 2) = (unat count * 2) mod 2 ^ 32"
    by (simp add: unat_word_ariths)
  moreover have "even ((unat count * 2) mod 2 ^ 32)"
    by (rule dvd_mod) simp_all
  ultimately obtain k where "unat (count * 2) = 2 * k"
    by (auto elim: evenE)
  moreover have "unat (count * 2) < 2 ^ 32"
    using unsigned_less [of "count * 2"] by simp
  ultimately have "unat (count * 2) \<le> 2 ^ 32 - 2"
    by simp
  moreover from lt have il: "unat i < unat (count * 2)"
    by (simp add: word_less_nat_alt)
  ultimately have "unat i + 2 < 2 ^ 32"
    by simp
  then have "unat (i + 2) = unat i + 2"
    by (simp add: unat_word_ariths)
  with il show "((tab, len, count, i + 2, x), (tab, len, count, i, off))
      \<in> measure (\<lambda>(tab, len, count, i, off). unat (count * 2) - unat i)"
    by simp
qed simp

declare ext_copies_walk.simps [simp del]

subsection \<open>\<^verbatim>\<open>readdelta_rest\<close>, step by step\<close>

text \<open>Lines 103-117: the version word.\<close>

definition rest_version :: "state \<Rightarrow> drpm_err \<times> state" where
  "rest_version s =
     (case decompstrm_read_be32 s of
        Inl e \<Rightarrow> (e, s)
      | Inr (v, s1) \<Rightarrow>
          if \<not> MAGIC_DLT v then (DRPM_ERR_FORMAT, s1)
          else
            (let s2 = s1\<lparr>delta := (delta s1)\<lparr>version := v mod 256 - 0x30\<rparr>\<rparr>
             in if version (delta s2) < 3 \<and> type (delta s2) = DRPM_TYPE_RPMONLY
                then (DRPM_ERR_FORMAT, s2)
                else (DRPM_ERR_OK, s2)))"

text \<open>Lines 121-132: the source NEVR, stored with its terminating zero.\<close>

definition rest_src_nevr :: "env \<Rightarrow> state \<Rightarrow> drpm_err \<times> state" where
  "rest_src_nevr env s =
     (case decompstrm_read_be32 s of
        Inl e \<Rightarrow> (e, s)
      | Inr (src_nevr_len, s1) \<Rightarrow>
          (case malloc env (unat (src_nevr_len + 1)) s1 of
             (False, s2) \<Rightarrow> (DRPM_ERR_MEMORY, s2\<lparr>delta := (delta s2)\<lparr>src_nevr := None\<rparr>\<rparr>)
           | (True, s2) \<Rightarrow>
               (let s3 = s2\<lparr>delta := (delta s2)\<lparr>src_nevr := Some []\<rparr>\<rparr>
                in case decompstrm_read (unat src_nevr_len) s3 of
                     Inl e \<Rightarrow> (e, s3)
                   | Inr (bytes, s4) \<Rightarrow>
                       (DRPM_ERR_OK,
                        s4\<lparr>delta := (delta s4)\<lparr>src_nevr := Some (bytes @ [0])\<rparr>\<rparr>))))"

text \<open>Lines 136-154: the sequence.\<close>

definition rest_sequence :: "env \<Rightarrow> state \<Rightarrow> drpm_err \<times> state" where
  "rest_sequence env s =
     (case decompstrm_read_be32 s of
        Inl e \<Rightarrow> (e, s)
      | Inr (len, s1) \<Rightarrow>
          (let s2 = s1\<lparr>delta := (delta s1)\<lparr>sequence_len := len\<rparr>\<rparr>
           in if sequence_len (delta s2) < MD5_DIGEST_LENGTH \<or>
                 (sequence_len (delta s2) \<noteq> MD5_DIGEST_LENGTH \<and>
                  type (delta s2) = DRPM_TYPE_RPMONLY)
              then (DRPM_ERR_FORMAT, s2)
              else
                (case malloc env (unat (sequence_len (delta s2))) s2 of
                   (False, s3) \<Rightarrow>
                     (DRPM_ERR_MEMORY, s3\<lparr>delta := (delta s3)\<lparr>sequence := None\<rparr>\<rparr>)
                 | (True, s3) \<Rightarrow>
                     (let s4 = s3\<lparr>delta := (delta s3)\<lparr>sequence := Some []\<rparr>\<rparr>
                      in case decompstrm_read (unat (sequence_len (delta s4))) s4 of
                           Inl e \<Rightarrow> (e, s4)
                         | Inr (bytes, s5) \<Rightarrow>
                             (DRPM_ERR_OK,
                              s5\<lparr>delta := (delta s5)\<lparr>sequence := Some bytes\<rparr>\<rparr>)))))"

text \<open>Lines 157-158: the MD5 sum of the target, into the array of the record.\<close>

definition rest_tgt_md5 :: "state \<Rightarrow> drpm_err \<times> state" where
  "rest_tgt_md5 s =
     (case decompstrm_read (unat MD5_DIGEST_LENGTH) s of
        Inl e \<Rightarrow> (e, s)
      | Inr (bytes, s1) \<Rightarrow> (DRPM_ERR_OK, s1\<lparr>delta := (delta s1)\<lparr>tgt_md5 := bytes\<rparr>\<rparr>))"

text \<open>Lines 160-184: size, compression and compression parameters of the target.\<close>

definition rest_tgt_comp :: "env \<Rightarrow> state \<Rightarrow> drpm_err \<times> state" where
  "rest_tgt_comp env s =
     (if version (delta s) \<ge> 2 then
        (case decompstrm_read_be32 s of
           Inl e \<Rightarrow> (e, s)
         | Inr (ts, s1) \<Rightarrow>
             (let s2 = s1\<lparr>delta := (delta s1)\<lparr>tgt_size := ts\<rparr>\<rparr>
              in case decompstrm_read_be32 s2 of
                   Inl e \<Rightarrow> (e, s2)
                 | Inr (deltarpm_comp, s3) \<Rightarrow>
                     (case deltarpm_decode_comp env deltarpm_comp of
                        None \<Rightarrow> (DRPM_ERR_FORMAT, s3)
                      | Some (c, l) \<Rightarrow>
                          (let s4 = s3\<lparr>delta := (delta s3)\<lparr>tgt_comp := c, tgt_comp_level := l\<rparr>\<rparr>
                           in case decompstrm_read_be32 s4 of
                                Inl e \<Rightarrow> (e, s4)
                              | Inr (pl, s5) \<Rightarrow>
                                  (let s6 = s5\<lparr>delta := (delta s5)\<lparr>tgt_comp_param_len := pl\<rparr>\<rparr>
                                   in if tgt_comp_param_len (delta s6) > 0 then
                                        (case malloc env (unat (tgt_comp_param_len (delta s6))) s6 of
                                           (False, s7) \<Rightarrow>
                                             (DRPM_ERR_MEMORY,
                                              s7\<lparr>delta := (delta s7)\<lparr>tgt_comp_param := None\<rparr>\<rparr>)
                                         | (True, s7) \<Rightarrow>
                                             (let s8 = s7\<lparr>delta := (delta s7)\<lparr>tgt_comp_param := Some []\<rparr>\<rparr>
                                              in case decompstrm_read
                                                        (unat (tgt_comp_param_len (delta s8))) s8 of
                                                   Inl e \<Rightarrow> (e, s8)
                                                 | Inr (bytes, s9) \<Rightarrow>
                                                     (DRPM_ERR_OK,
                                                      s9\<lparr>delta := (delta s9)
                                                           \<lparr>tgt_comp_param := Some bytes\<rparr>\<rparr>)))
                                      else (DRPM_ERR_OK, s6))))))
      else (DRPM_ERR_OK, s))"

text \<open>
  Lines 186-209, inside the branch of line 160: the length of the target header and the
  offset adjustment elements. The odd words go through the signed-magnitude decoder.
\<close>

definition rest_offadj :: "env \<Rightarrow> state \<Rightarrow> drpm_err \<times> state" where
  "rest_offadj env s =
     (if version (delta s) \<ge> 2 \<and> version (delta s) = 3 then
        (case decompstrm_read_be32 s of
           Inl e \<Rightarrow> (e, s)
         | Inr (hl, s1) \<Rightarrow>
             (let s2 = s1\<lparr>delta := (delta s1)\<lparr>tgt_header_len := hl\<rparr>\<rparr>
              in case decompstrm_read_be32 s2 of
                   Inl e \<Rightarrow> (e, s2)
                 | Inr (c, s3) \<Rightarrow>
                     (let s4 = s3\<lparr>delta := (delta s3)\<lparr>offadj_elems_count := c\<rparr>\<rparr>
                      in if offadj_elems_count (delta s4) > 0 then
                           (let offadj_elems_size = offadj_elems_count (delta s4) * 2
                            in read_table_into env (\<lambda>t d. d\<lparr>offadj_elems := t\<rparr>)
                                 id decode_signed offadj_elems_size s4)
                         else (DRPM_ERR_OK, s4))))
      else (DRPM_ERR_OK, s))"

text \<open>Lines 212-216.\<close>

definition rest_header_check :: "state \<Rightarrow> drpm_err \<times> state" where
  "rest_header_check s =
     (if tgt_header_len (delta s) = 0 \<and> type (delta s) = DRPM_TYPE_RPMONLY
      then (DRPM_ERR_FORMAT, s) else (DRPM_ERR_OK, s))"

text \<open>Lines 220-234: lead and signature of the target.\<close>

definition rest_leadsig :: "env \<Rightarrow> state \<Rightarrow> drpm_err \<times> state" where
  "rest_leadsig env s =
     (case decompstrm_read_be32 s of
        Inl e \<Rightarrow> (e, s)
      | Inr (len, s1) \<Rightarrow>
          (let s2 = s1\<lparr>delta := (delta s1)\<lparr>tgt_leadsig_len := len\<rparr>\<rparr>
           in if tgt_leadsig_len (delta s2) < RPM_LEADSIG_MIN_LEN env
              then (DRPM_ERR_FORMAT, s2)
              else
                (case malloc env (unat (tgt_leadsig_len (delta s2))) s2 of
                   (False, s3) \<Rightarrow>
                     (DRPM_ERR_MEMORY, s3\<lparr>delta := (delta s3)\<lparr>tgt_leadsig := None\<rparr>\<rparr>)
                 | (True, s3) \<Rightarrow>
                     (let s4 = s3\<lparr>delta := (delta s3)\<lparr>tgt_leadsig := Some []\<rparr>\<rparr>
                      in case decompstrm_read (unat (tgt_leadsig_len (delta s4))) s4 of
                           Inl e \<Rightarrow> (e, s4)
                         | Inr (bytes, s5) \<Rightarrow>
                             (DRPM_ERR_OK,
                              s5\<lparr>delta := (delta s5)\<lparr>tgt_leadsig := Some bytes\<rparr>\<rparr>)))))"

text \<open>Lines 238-241: the payload format offset and the two counts.\<close>

definition rest_counts :: "state \<Rightarrow> drpm_err \<times> state" where
  "rest_counts s =
     (case decompstrm_read_be32 s of
        Inl e \<Rightarrow> (e, s)
      | Inr (pf, s1) \<Rightarrow>
          (let s2 = s1\<lparr>delta := (delta s1)\<lparr>payload_fmt_off := pf\<rparr>\<rparr>
           in case decompstrm_read_be32 s2 of
                Inl e \<Rightarrow> (e, s2)
              | Inr (ic, s3) \<Rightarrow>
                  (let s4 = s3\<lparr>delta := (delta s3)\<lparr>int_copies_count := ic\<rparr>\<rparr>
                   in case decompstrm_read_be32 s4 of
                        Inl e \<Rightarrow> (e, s4)
                      | Inr (ec, s5) \<Rightarrow>
                          (DRPM_ERR_OK,
                           s5\<lparr>delta := (delta s5)\<lparr>ext_copies_count := ec\<rparr>\<rparr>))))"

text \<open>Lines 243, 246-257: the internal copies, both members unsigned.\<close>

definition rest_int_copies :: "env \<Rightarrow> state \<Rightarrow> drpm_err \<times> state" where
  "rest_int_copies env s =
     (let int_copies_size = int_copies_count (delta s) * 2
      in if int_copies_size > 0 then
           read_table_into env (\<lambda>t d. d\<lparr>int_copies := t\<rparr>) id id int_copies_size s
         else (DRPM_ERR_OK, s))"

text \<open>
  Lines 244, 259-273: the external copies; the even words go through the
  signed-magnitude decoder.
\<close>

definition rest_ext_copies :: "env \<Rightarrow> state \<Rightarrow> drpm_err \<times> state" where
  "rest_ext_copies env s =
     (let ext_copies_size = ext_copies_count (delta s) * 2
      in if ext_copies_size > 0 then
           read_table_into env (\<lambda>t d. d\<lparr>ext_copies := t\<rparr>) decode_signed id ext_copies_size s
         else (DRPM_ERR_OK, s))"

text \<open>Lines 276-283: the length of the external data.\<close>

definition rest_ext_data_len :: "state \<Rightarrow> drpm_err \<times> state" where
  "rest_ext_data_len s =
     (if version (delta s) = 3 then
        (case decompstrm_read_be64 s of
           Inl e \<Rightarrow> (e, s)
         | Inr (l, s1) \<Rightarrow> (DRPM_ERR_OK, s1\<lparr>delta := (delta s1)\<lparr>ext_data_len := l\<rparr>\<rparr>))
      else
        (case decompstrm_read_be32 s of
           Inl e \<Rightarrow> (e, s)
         | Inr (ext_data_32, s1) \<Rightarrow>
             (DRPM_ERR_OK, s1\<lparr>delta := (delta s1)\<lparr>ext_data_len := ucast ext_data_32\<rparr>\<rparr>)))"

text \<open>Lines 287-303: the add data; its length is the local \<^verbatim>\<open>add_data_len\<close>.\<close>

definition rest_add_data :: "env \<Rightarrow> state \<Rightarrow> drpm_err \<times> state" where
  "rest_add_data env s =
     (case decompstrm_read_be32 s of
        Inl e \<Rightarrow> (e, s)
      | Inr (len, s1) \<Rightarrow>
          (let s2 = s1\<lparr>l_add_data_len := len\<rparr>
           in if l_add_data_len s2 > 0 then
                if type (delta s2) = DRPM_TYPE_RPMONLY then (DRPM_ERR_FORMAT, s2)
                else
                  (case malloc env (unat (l_add_data_len s2)) s2 of
                     (False, s3) \<Rightarrow>
                       (DRPM_ERR_MEMORY, s3\<lparr>delta := (delta s3)\<lparr>add_data := None\<rparr>\<rparr>)
                   | (True, s3) \<Rightarrow>
                       (let s4 = s3\<lparr>delta := (delta s3)\<lparr>add_data := Some []\<rparr>\<rparr>
                        in case decompstrm_read (unat (l_add_data_len s4)) s4 of
                             Inl e \<Rightarrow> (e, s4)
                           | Inr (bytes, s5) \<Rightarrow>
                               (DRPM_ERR_OK,
                                s5\<lparr>delta := (delta s5)
                                     \<lparr>add_data := Some bytes,
                                      add_data_len := l_add_data_len s5\<rparr>\<rparr>)))
              else (DRPM_ERR_OK, s2)))"

text \<open>Lines 307-314: the length of the internal data.\<close>

definition rest_int_data_len :: "state \<Rightarrow> drpm_err \<times> state" where
  "rest_int_data_len s =
     (if version (delta s) = 3 then
        (case decompstrm_read_be64 s of
           Inl e \<Rightarrow> (e, s)
         | Inr (l, s1) \<Rightarrow> (DRPM_ERR_OK, s1\<lparr>delta := (delta s1)\<lparr>int_data_len := l\<rparr>\<rparr>))
      else
        (case decompstrm_read_be32 s of
           Inl e \<Rightarrow> (e, s)
         | Inr (int_data_32, s1) \<Rightarrow>
             (DRPM_ERR_OK, s1\<lparr>delta := (delta s1)\<lparr>int_data_len := ucast int_data_32\<rparr>\<rparr>)))"

text \<open>Lines 316-330: the internal data.\<close>

definition rest_int_data :: "env \<Rightarrow> state \<Rightarrow> drpm_err \<times> state" where
  "rest_int_data env s =
     (if unat (int_data_len (delta s)) > SIZE_MAX env then (DRPM_ERR_OVERFLOW, s)
      else if int_data_len (delta s) > 0 then
        (case malloc env (unat (int_data_len (delta s))) s of
           (False, s1) \<Rightarrow> (DRPM_ERR_MEMORY, s1\<lparr>delta := (delta s1)\<lparr>int_data := None\<rparr>\<rparr>)
         | (True, s1) \<Rightarrow>
             (let s2 = s1\<lparr>delta := (delta s1)\<lparr>int_data := Some []\<rparr>\<rparr>
              in case decompstrm_read (unat (int_data_len (delta s2))) s2 of
                   Inl e \<Rightarrow> (e, s2)
                 | Inr (bytes, s3) \<Rightarrow>
                     (DRPM_ERR_OK,
                      s3\<lparr>delta := (delta s3)\<lparr>int_data := Some bytes, int_data_as_ptrs := False\<rparr>\<rparr>)))
      else (DRPM_ERR_OK, s\<lparr>delta := (delta s)\<lparr>int_data_as_ptrs := False\<rparr>\<rparr>))"

text \<open>Lines 333-340 and 343-355: the two walks.\<close>

definition rest_check_int :: "state \<Rightarrow> drpm_err \<times> state" where
  "rest_check_int s =
     (int_copies_walk (table_word (int_copies (delta s))) (int_data_len (delta s))
        (int_copies_count (delta s)) 1 0, s)"

definition rest_check_ext :: "state \<Rightarrow> drpm_err \<times> state" where
  "rest_check_ext s =
     (ext_copies_walk (table_word (ext_copies (delta s))) (ext_data_len (delta s))
        (ext_copies_count (delta s)) 0 0, s)"

text \<open>
  The steps between the construction of the stream and the label \<^verbatim>\<open>cleanup\<close>, in the
  order of the source, and their execution: the first step that fails ends it.
\<close>

fun run :: "(state \<Rightarrow> drpm_err \<times> state) list \<Rightarrow> state \<Rightarrow> drpm_err \<times> state" where
  "run [] s = (DRPM_ERR_OK, s)"
| "run (p # ps) s = andthen p (run ps) s"

definition rest_steps :: "env \<Rightarrow> (state \<Rightarrow> drpm_err \<times> state) list" where
  "rest_steps env =
     [rest_version, rest_src_nevr env, rest_sequence env, rest_tgt_md5, rest_tgt_comp env,
      rest_offadj env, rest_header_check, rest_leadsig env, rest_counts,
      rest_int_copies env, rest_ext_copies env, rest_ext_data_len, rest_add_data env,
      rest_int_data_len, rest_int_data env, rest_check_int, rest_check_ext]"

definition rest_fields :: "env \<Rightarrow> state \<Rightarrow> drpm_err \<times> state" where
  "rest_fields env = run (rest_steps env)"

definition readdelta_rest :: "env \<Rightarrow> state \<Rightarrow> drpm_err \<times> state" where
  "readdelta_rest env s =
     (case decompstrm_init env s of
        (e, s1) \<Rightarrow>
          if e \<noteq> DRPM_ERR_OK then (e, s1)
          else (case rest_fields env s1 of (e', s2) \<Rightarrow> (e', decompstrm_destroy s2)))"

subsection \<open>The two header readers\<close>

text \<open>
  \<^verbatim>\<open>readdelta_rpmonly\<close>. The casts \<^verbatim>\<open>(uint32_t)bytes_read\<close> are exact, since \<^verbatim>\<open>read\<close>
  returns at most the 32-bit length it was given.
\<close>

definition readdelta_rpmonly :: "env \<Rightarrow> state \<Rightarrow> drpm_err \<times> state" where
  "readdelta_rpmonly env s =
     (case read_be32 s of
        (Inl e, s1) \<Rightarrow> (e, s1)
      | (Inr v, s1) \<Rightarrow>
          if \<not> MAGIC_DLT3 v then (DRPM_ERR_FORMAT, s1)
          else
            (case read_be32 s1 of
               (Inl e, s2) \<Rightarrow> (e, s2)
             | (Inr tgt_nevr_len, s2) \<Rightarrow>
                 (case malloc env (unat (tgt_nevr_len + 1)) s2 of
                    (False, s3) \<Rightarrow>
                      (DRPM_ERR_MEMORY, s3\<lparr>delta := (delta s3)\<lparr>head := HEAD_NULL\<rparr>\<rparr>)
                  | (True, s3) \<Rightarrow>
                      (let s4 = s3\<lparr>delta := (delta s3)\<lparr>head := TGT_NEVR []\<rparr>\<rparr>
                       in case sys_read (unat tgt_nevr_len) s4 of
                            (None, s5) \<Rightarrow> (DRPM_ERR_IO, s5)
                          | (Some bytes, s5) \<Rightarrow>
                              if length bytes \<noteq> unat tgt_nevr_len
                              then (DRPM_ERR_FORMAT,
                                    s5\<lparr>delta := (delta s5)\<lparr>head := TGT_NEVR bytes\<rparr>\<rparr>)
                              else
                                (let s6 = s5\<lparr>delta := (delta s5)\<lparr>head := TGT_NEVR (bytes @ [0])\<rparr>\<rparr>
                                 in case read_be32 s6 of
                                      (Inl e, s7) \<Rightarrow> (e, s7)
                                    | (Inr al, s7) \<Rightarrow>
                                        (let s8 = s7\<lparr>delta := (delta s7)\<lparr>add_data_len := al\<rparr>\<rparr>
                                         in case malloc env (unat (add_data_len (delta s8))) s8 of
                                              (False, s9) \<Rightarrow>
                                                (DRPM_ERR_MEMORY,
                                                 s9\<lparr>delta := (delta s9)\<lparr>add_data := None\<rparr>\<rparr>)
                                            | (True, s9) \<Rightarrow>
                                                (let s10 = s9\<lparr>delta := (delta s9)\<lparr>add_data := Some []\<rparr>\<rparr>
                                                 in case sys_read (unat (add_data_len (delta s10))) s10 of
                                                      (None, s11) \<Rightarrow> (DRPM_ERR_IO, s11)
                                                    | (Some abytes, s11) \<Rightarrow>
                                                        (if length abytes \<noteq> unat (add_data_len (delta s11))
                                                         then DRPM_ERR_FORMAT else DRPM_ERR_OK,
                                                         s11\<lparr>delta := (delta s11)
                                                               \<lparr>add_data := Some abytes\<rparr>\<rparr>))))))))"

text \<open>
  \<^verbatim>\<open>readdelta_standard\<close>. The handle that \<^verbatim>\<open>rpm_read\<close> returns is stored in the record
  by the last statement only.
\<close>

definition readdelta_standard :: "env \<Rightarrow> state \<Rightarrow> drpm_err \<times> state" where
  "readdelta_standard env s =
     (case rpm_read env (case filename (delta s) of None \<Rightarrow> [] | Some f \<Rightarrow> f) of
        Inl e \<Rightarrow> (e, s)
      | Inr rpmst \<Rightarrow>
          (case rpm_get_comp rpmst of
             Inl e \<Rightarrow> (e, s)
           | Inr c \<Rightarrow>
               (let s1 = s\<lparr>delta := (delta s)\<lparr>tgt_comp := c\<rparr>\<rparr>
                in case sys_lseek (rpm_size_full rpmst) s1 of
                     None \<Rightarrow> (DRPM_ERR_IO, s1)
                   | Some s2 \<Rightarrow>
                       (DRPM_ERR_OK, s2\<lparr>delta := (delta s2)\<lparr>head := TGT_RPM rpmst\<rparr>\<rparr>))))"

subsection \<open>\<^verbatim>\<open>read_deltarpm\<close>\<close>

text \<open>
  Modelled from the spec: \<^verbatim>\<open>free_deltarpm\<close>, which is not among the sources. Sections 3
  and 4.6: it releases every buffer that the record owns and zeroes the record. The
  buffers of the record are those that this file attaches to it; each one that is not
  \<^verbatim>\<open>NULL\<close> is a live heap block.
\<close>

definition owned_buffers :: "deltarpm \<Rightarrow> nat" where
  "owned_buffers d =
     (case head d of TGT_NEVR _ \<Rightarrow> 1 | _ \<Rightarrow> 0) +
     (case src_nevr d of None \<Rightarrow> 0 | Some _ \<Rightarrow> 1) +
     (case sequence d of None \<Rightarrow> 0 | Some _ \<Rightarrow> 1) +
     (case tgt_comp_param d of None \<Rightarrow> 0 | Some _ \<Rightarrow> 1) +
     (case offadj_elems d of None \<Rightarrow> 0 | Some _ \<Rightarrow> 1) +
     (case tgt_leadsig d of None \<Rightarrow> 0 | Some _ \<Rightarrow> 1) +
     (case int_copies d of None \<Rightarrow> 0 | Some _ \<Rightarrow> 1) +
     (case ext_copies d of None \<Rightarrow> 0 | Some _ \<Rightarrow> 1) +
     (case add_data d of None \<Rightarrow> 0 | Some _ \<Rightarrow> 1) +
     (case int_data d of None \<Rightarrow> 0 | Some _ \<Rightarrow> 1)"

definition free_deltarpm :: "state \<Rightarrow> state" where
  "free_deltarpm s = s\<lparr>heap := heap s - owned_buffers (delta s), delta := delta_init\<rparr>"

definition sys_close :: "state \<Rightarrow> state" where
  "sys_close s = s\<lparr>fd_open := False\<rparr>"

text \<open>
  Lines 449-466: the first magic word and the header reader it selects. The \<^verbatim>\<open>switch\<close>
  is tried in the order of its cases.
\<close>

definition read_header :: "env \<Rightarrow> state \<Rightarrow> drpm_err \<times> state" where
  "read_header env s =
     (case read_be32 s of
        (Inl e, s1) \<Rightarrow> (e, s1)
      | (Inr magic, s1) \<Rightarrow>
          if magic = MAGIC_DRPM then
            readdelta_rpmonly env (s1\<lparr>delta := (delta s1)\<lparr>type := DRPM_TYPE_RPMONLY\<rparr>\<rparr>)
          else if magic = MAGIC_RPM env then
            readdelta_standard env (s1\<lparr>delta := (delta s1)\<lparr>type := DRPM_TYPE_STANDARD\<rparr>\<rparr>)
          else (DRPM_ERR_FORMAT, s1))"

text \<open>
  The state just after \<^verbatim>\<open>open\<close> has succeeded and \<^verbatim>\<open>delta->filename\<close> is set: nothing
  allocated yet, no stream.
\<close>

definition opened :: "fobj \<Rightarrow> string \<Rightarrow> deltarpm \<Rightarrow> state" where
  "opened f name d =
     \<lparr>fd_obj = f, fd_pos = 0, fd_open = True, strm = [], strm_live = False, heap = 0,
      delta = d\<lparr>filename := Some name\<rparr>, l_add_data_len = 0\<rparr>"

text \<open>
  \<^verbatim>\<open>read_deltarpm(delta, filename)\<close>, either pointer being possibly \<^verbatim>\<open>NULL\<close>. The
  result is the error code and, once the file is open, the state at the return.
\<close>

definition read_deltarpm ::
  "env \<Rightarrow> deltarpm option \<Rightarrow> string option \<Rightarrow> drpm_err \<times> state option"
where
  "read_deltarpm env delta_ptr filename_ptr =
     (case (filename_ptr, delta_ptr) of
        (Some name, Some d) \<Rightarrow>
          (case fs_open env name of
             None \<Rightarrow> (DRPM_ERR_IO, None)
           | Some f \<Rightarrow>
               (case andthen (read_header env) (readdelta_rest env) (opened f name d) of
                  (e, s) \<Rightarrow>
                    if e \<noteq> DRPM_ERR_OK then (e, Some (sys_close (free_deltarpm s)))
                    else (e, Some (sys_close s))))
      | _ \<Rightarrow> (DRPM_ERR_PROG, None))"

text \<open>
  The state in which \<^verbatim>\<open>read_deltarpm\<close>, called on the record \<open>d\<close> and the file \<open>name\<close>,
  arrives at step \<open>k\<close> of \<^verbatim>\<open>readdelta_rest\<close> (counted from 0), when it gets there: the
  file opens, the header reader and the construction of the stream succeed, and so do
  the steps before \<open>k\<close>.
\<close>

definition before_step :: "env \<Rightarrow> deltarpm \<Rightarrow> string \<Rightarrow> nat \<Rightarrow> state option" where
  "before_step env d name k =
     (case fs_open env name of
        None \<Rightarrow> None
      | Some f \<Rightarrow>
          (case andthen (read_header env)
                  (andthen (decompstrm_init env) (run (take k (rest_steps env))))
                  (opened f name d) of
             (e, s) \<Rightarrow> if e = DRPM_ERR_OK then Some s else None))"

subsection \<open>Example files\<close>

text \<open>
  A small file system for the concrete runs: the allocator grants every request, the
  decompressor passes the bytes through (algorithm 0), the compression words 0 to 4 are
  known, and the RPM reader answers for an RPM that is its four magic bytes.
\<close>

definition ex_leadsig :: "u8 list" where
  "ex_leadsig = [0, 0, 0, 112] @ replicate 112 0xAA"

text \<open>
  A body in the layout of version 3, with its version digit, the length of its sequence,
  the length of the target header and the length of its add data: one offadj pair
  \<open>(7, -5)\<close>, the internal copies \<open>(1, 2), (3, 4)\<close> over 6 bytes of internal data, the
  external copies \<open>(5, 3), (-2, 4)\<close> over 10 bytes of external data.
\<close>

definition ex_body3 :: "u8 \<Rightarrow> u8 \<Rightarrow> u8 \<Rightarrow> u8 \<Rightarrow> u8 list" where
  "ex_body3 digit sl hl al =
     [0x44, 0x4C, 0x54, digit] @
     [0, 0, 0, 3, 0x66, 0x6F, 0x6F] @
     [0, 0, 0, sl] @ replicate (unat sl) 0x11 @
     replicate 16 0x22 @
     [0, 0, 1, 0,  0, 0, 0, 1,  0, 0, 0, 2, 0xBE, 0xEF] @
     [0, 0, 0, hl,  0, 0, 0, 1,  0, 0, 0, 7,  0x80, 0, 0, 5] @
     ex_leadsig @
     [0, 0, 0, 9,  0, 0, 0, 2,  0, 0, 0, 2] @
     [0, 0, 0, 1,  0, 0, 0, 3,  0, 0, 0, 2,  0, 0, 0, 4] @
     [0, 0, 0, 5,  0x80, 0, 0, 2,  0, 0, 0, 3,  0, 0, 0, 4] @
     [0, 0, 0, 0, 0, 0, 0, 10] @
     [0, 0, 0, al] @ replicate (unat al) 0x33 @
     [0, 0, 0, 0, 0, 0, 0, 6] @ [1, 2, 3, 4, 5, 6]"

text \<open>A body in the layout of version 2, with its version digit and no copies.\<close>

definition ex_body2 :: "u8 \<Rightarrow> u8 list" where
  "ex_body2 digit =
     [0x44, 0x4C, 0x54, digit] @
     [0, 0, 0, 0] @
     [0, 0, 0, 17] @ replicate 17 0x11 @
     replicate 16 0x22 @
     [0, 0, 1, 0,  0, 0, 0, 1,  0, 0, 0, 0] @
     ex_leadsig @
     [0, 0, 0, 0,  0, 0, 0, 0,  0, 0, 0, 0] @
     [0, 0, 0, 0] @
     [0, 0, 0, 0] @
     [0, 0, 0, 0]"

text \<open>The same layout with a sequence of 16 bytes, as an rpm-only delta needs it.\<close>

definition ex_body2_16 :: "u8 \<Rightarrow> u8 list" where
  "ex_body2_16 digit =
     [0x44, 0x4C, 0x54, digit] @
     [0, 0, 0, 0] @
     [0, 0, 0, 16] @ replicate 16 0x11 @
     replicate 16 0x22 @
     [0, 0, 1, 0,  0, 0, 0, 1,  0, 0, 0, 0] @
     ex_leadsig @
     [0, 0, 0, 0,  0, 0, 0, 0,  0, 0, 0, 0] @
     [0, 0, 0, 0] @
     [0, 0, 0, 0] @
     [0, 0, 0, 0]"

text \<open>
  A body in the layout of version 1, with the two counts, the words of the two tables as
  they are on the wire, and the 32-bit lengths of the external and of the internal data
  (the internal data itself being zeros).
\<close>

definition ex_body1 :: "u8 list \<Rightarrow> u8 list \<Rightarrow> u8 list \<Rightarrow> u8 list \<Rightarrow> u8 \<Rightarrow> u8 \<Rightarrow> u8 list" where
  "ex_body1 ic itab ec etab el il =
     [0x44, 0x4C, 0x54, 0x31] @
     [0, 0, 0, 0] @
     [0, 0, 0, 16] @ replicate 16 0x11 @
     replicate 16 0x22 @
     ex_leadsig @
     [0, 0, 0, 0] @ ic @ ec @ itab @ etab @
     [0, 0, 0, el] @
     [0, 0, 0, 0] @
     [0, 0, 0, il] @ replicate (unat il) 0"

definition ex_rpmonly_head :: "u8 list" where
  "ex_rpmonly_head =
     [0x64, 0x72, 0x70, 0x6D,  0x44, 0x4C, 0x54, 0x33] @
     [0, 0, 0, 3, 0x62, 0x61, 0x72] @
     [0, 0, 0, 2, 0xCA, 0xFE]"

definition ex_rpm_head :: "u8 list" where
  "ex_rpm_head = [0xED, 0xAB, 0xEE, 0xDB]"

definition ex_rpm :: rpm where
  "ex_rpm = \<lparr>rpm_get_comp = Inr 1, rpm_size_full = 4, rpm_get_nevr = Inr [0x62, 0x61, 0x72]\<rparr>"

definition ex_files :: "string \<Rightarrow> fobj option" where
  "ex_files name =
     (if name = ''rpmonly.drpm'' then Some (Regular (ex_rpmonly_head @ ex_body3 0x33 16 0x50 0))
      else if name = ''standard.drpm'' then Some (Regular (ex_rpm_head @ ex_body3 0x33 17 0 2))
      else if name = ''dlt4.drpm'' then Some (Regular (ex_rpm_head @ ex_body2 0x34))
      else if name = ''seq15.drpm'' then Some (Regular (ex_rpm_head @ ex_body3 0x33 15 0 0))
      else if name = ''seq17.drpm'' then Some (Regular (ex_rpmonly_head @ ex_body3 0x33 17 0x50 0))
      else if name = ''ext11.drpm'' then
        Some (Regular (ex_rpm_head @
          ex_body1 [0, 0, 0, 0] [] [0, 0, 0, 1] [0, 0, 0, 0,  0, 0, 0, 11] 10 0))
      else if name = ''int7.drpm'' then
        Some (Regular (ex_rpm_head @
          ex_body1 [0, 0, 0, 2] [0, 0, 0, 1,  0, 0, 0, 3,  0, 0, 0, 2,  0, 0, 0, 5] [0, 0, 0, 0] [] 0 6))
      else if name = ''big.drpm'' then
        Some (Regular (ex_rpm_head @
          ex_body1 [0x20, 0, 0, 1] [0, 0, 0, 1,  0, 0, 0, 2,  0, 0, 0, 3] [0, 0, 0, 0] [] 0 0))
      else if name = ''rpmonly4.drpm'' then Some (Regular (ex_rpmonly_head @ ex_body2_16 0x34))
      else if name = ''half.drpm'' then
        Some (Regular (ex_rpm_head @
          ex_body1 [0x80, 0, 0, 0] [] [0, 0, 0, 0] [] 0 0))
      else if name = ''dir'' then Some Unreadable
      else None)"

definition ex_env :: env where
  "ex_env =
     \<lparr>fs_open = ex_files,
      malloc_ok = (\<lambda>n. True),
      strm_detect = (\<lambda>bs. Inr (0, bs)),
      deltarpm_decode_comp = (\<lambda>w. if w < 5 then Some (ucast w, 0) else None),
      rpm_read = (\<lambda>name. Inr ex_rpm),
      MAGIC_RPM = 0xEDABEEDB,
      RPM_LEADSIG_MIN_LEN = 112,
      SIZE_MAX = 2 ^ 64 - 1\<rparr>"

section \<open>Properties\<close>

subsection \<open>Sequencing and evaluation\<close>

lemmas step_defs =
  rest_version_def rest_src_nevr_def rest_sequence_def rest_tgt_md5_def rest_tgt_comp_def
  rest_offadj_def rest_header_check_def rest_leadsig_def rest_counts_def rest_int_copies_def
  rest_ext_copies_def rest_ext_data_len_def rest_add_data_def rest_int_data_len_def
  rest_int_data_def rest_check_int_def rest_check_ext_def

lemma two_le_one: "((2::u32) \<le> 1) = False"
  by (simp add: word_le_nat_alt)

lemmas prim_defs = two_le_one
  decompstrm_read_be32_def decompstrm_read_be64_def decompstrm_read_def strm_take_def
  strm_be32_def parse_be32_def parse_be64_def malloc_def sys_read_def sys_lseek_def
  read_be32_def read_be64_def decompstrm_init_def decompstrm_destroy_def
  read_table_into_def read_table_def read_column.simps table_word_def
  int_copies_walk.simps ext_copies_walk.simps decode_signed_def TWOS_COMPLEMENT_def
  INT32_MIN_def MAGIC_DLT_def MAGIC_DLT3_def MAGIC_DRPM_def MD5_DIGEST_LENGTH_def

lemmas entry_defs =
  read_deltarpm_def read_header_def readdelta_rpmonly_def readdelta_standard_def
  readdelta_rest_def rest_fields_def rest_steps_def andthen_def opened_def
  free_deltarpm_def sys_close_def owned_buffers_def

lemmas ex_defs =
  ex_env_def ex_files_def ex_rpmonly_head_def ex_rpm_head_def ex_body3_def ex_body2_def
  ex_body2_16_def
  ex_body1_def ex_leadsig_def ex_rpm_def delta_init_def

lemma andthen_OK_iff:
  "andthen p q s = (DRPM_ERR_OK, s'') \<longleftrightarrow> (\<exists>s'. p s = (DRPM_ERR_OK, s') \<and> q s' = (DRPM_ERR_OK, s''))"
  by (auto simp: andthen_def split: prod.splits if_splits)

lemma andthen_fail: "p s = (e, s') \<Longrightarrow> e \<noteq> DRPM_ERR_OK \<Longrightarrow> andthen p q s = (e, s')"
  by (simp add: andthen_def)

lemma andthen_pass: "p s = (DRPM_ERR_OK, s') \<Longrightarrow> andthen p q s = q s'"
  by (simp add: andthen_def)

lemma andthen_assoc: "andthen (andthen p q) r = andthen p (andthen q r)"
  by (rule ext) (auto simp: andthen_def split: prod.splits)

lemma run_append: "run (ps @ qs) = andthen (run ps) (run qs)"
proof (induction ps)
  case Nil
  show ?case by (rule ext) (simp add: andthen_def)
next
  case (Cons p ps)
  show ?case by (rule ext) (simp add: Cons andthen_assoc)
qed

lemma run_single: "run [p] = p"
  by (rule ext) (auto simp: andthen_def split: prod.splits)

lemma run_take_Suc:
  "k < length ps \<Longrightarrow> run (take (Suc k) ps) = andthen (run (take k ps)) (ps ! k)"
  by (simp add: take_Suc_conv_app_nth run_append run_single)

lemma length_rest_steps: "length (rest_steps env) = 17"
  by (simp add: rest_steps_def)

lemma before_step_Suc:
  assumes "before_step env d name k = Some s" and "k < 17"
    and "(rest_steps env ! k) s = (DRPM_ERR_OK, s')"
  shows "before_step env d name (Suc k) = Some s'"
  using assms
  by (auto simp: before_step_def run_take_Suc length_rest_steps andthen_def
      split: option.splits prod.splits if_splits)

lemma before_step_pred:
  assumes "before_step env d name (Suc k) = Some s'" and "k < 17"
  shows "\<exists>s. before_step env d name k = Some s \<and> (rest_steps env ! k) s = (DRPM_ERR_OK, s')"
  using assms
  by (auto simp: before_step_def run_take_Suc length_rest_steps andthen_def
      split: option.splits prod.splits if_splits)

lemma run_split:
  "k < length ps \<Longrightarrow> run ps = andthen (run (take k ps)) (andthen (ps ! k) (run (drop (Suc k) ps)))"
proof -
  assume "k < length ps"
  then have "ps = take k ps @ [ps ! k] @ drop (Suc k) ps"
    by (simp add: id_take_nth_drop [symmetric])
  then have "run ps = run (take k ps @ [ps ! k] @ drop (Suc k) ps)"
    by simp
  then show ?thesis
    by (simp only: run_append run_single)
qed

lemma read_deltarpm_step_fails:
  assumes "before_step env d name k = Some s" and "k < 17"
    and "(rest_steps env ! k) s = (e, s')" and "e \<noteq> DRPM_ERR_OK"
  shows "read_deltarpm env (Some d) (Some name) =
           (e, Some (sys_close (free_deltarpm (decompstrm_destroy s'))))"
proof -
  from assms(1) obtain f s0 s1 where
    f: "fs_open env name = Some f"
    and h: "read_header env (opened f name d) = (DRPM_ERR_OK, s0)"
    and i: "decompstrm_init env s0 = (DRPM_ERR_OK, s1)"
    and r: "run (take k (rest_steps env)) s1 = (DRPM_ERR_OK, s)"
    by (auto simp: before_step_def andthen_def split: option.splits prod.splits if_splits)
  have "rest_fields env s1 = (e, s')"
    unfolding rest_fields_def
    using assms(2-4) r
    by (subst run_split [of k]) (auto simp: length_rest_steps andthen_def)
  with i have "readdelta_rest env s0 = (e, decompstrm_destroy s')"
    by (simp add: readdelta_rest_def)
  with f h assms(4) show ?thesis
    by (simp add: read_deltarpm_def andthen_def)
qed

lemma read_deltarpm_OK:
  assumes "read_deltarpm env (Some d) (Some name) = (DRPM_ERR_OK, Some s')"
  shows "\<exists>s. before_step env d name 17 = Some s \<and> s' = sys_close (decompstrm_destroy s)"
  using assms
  by (auto simp: read_deltarpm_def before_step_def andthen_def readdelta_rest_def
        rest_fields_def length_rest_steps
      split: option.splits prod.splits if_splits)

subsection \<open>The signed-magnitude decoder\<close>

lemma high_bit_test: "(w AND INT32_MIN \<noteq> 0) = bit w 31" for w :: u32
  using and_exp_eq_0_iff_not_bit [of w 31] by (simp add: INT32_MIN_def)

lemma xor_exp_mask: "n = 31 \<Longrightarrow> bit w n \<Longrightarrow> w XOR 2 ^ n = w AND mask n" for w :: u32
  by (intro bit_word_eqI) (auto simp: bit_simps simp del: power_numeral)

lemma xor_high_bit: "bit w 31 \<Longrightarrow> w XOR INT32_MIN = w AND 0x7FFFFFFF" for w :: u32
  using xor_exp_mask [of 31 w] by (simp add: INT32_MIN_def mask_eq_exp_minus_1)

lemma magnitude_bound: "uint (w AND 0x7FFFFFFF) < 2 ^ 31" for w :: u32
proof -
  have "w AND 0x7FFFFFFF \<le> 0x7FFFFFFF"
    by (rule word_and_le1)
  then have "uint (w AND 0x7FFFFFFF) \<le> uint (0x7FFFFFFF :: u32)"
    by (simp only: word_le_def)
  then show ?thesis by simp
qed

lemma sint_neg_magnitude:
  "sint (- (w AND 0x7FFFFFFF)) = - uint (w AND 0x7FFFFFFF)" for w :: u32
proof -
  let ?m = "w AND 0x7FFFFFFF"
  have lt: "uint ?m < 2 ^ 31"
    by (rule magnitude_bound)
  have a: "- (2 ^ 31) \<le> - uint ?m"
    using lt by linarith
  have b: "- uint ?m < 2 ^ 31"
  proof -
    have "- uint ?m \<le> 0"
      by simp
    also have "(0::int) < 2 ^ 31"
      by simp
    finally show ?thesis .
  qed
  have "sint (- ?m) = signed_take_bit 31 (- uint ?m)"
    by (simp add: sint_uint uint_word_arith_bintrs signed_take_bit_take_bit)
  also have "\<dots> = - uint ?m"
    using a b by (rule signed_take_bit_int_eq_self)
  finally show ?thesis .
qed

lemma sint_clear: "\<not> bit w 31 \<Longrightarrow> sint w = uint w" for w :: u32
proof -
  assume nb: "\<not> bit w 31"
  have "sint w = signed_take_bit 31 (uint w)"
    by (simp add: sint_uint)
  also have "\<dots> = take_bit 31 (uint w)"
    using nb by (simp add: signed_take_bit_eq_if_positive bit_uint_iff)
  also have "\<dots> = uint w"
  proof (rule bit_eqI)
    fix n
    show "bit (take_bit 31 (uint w)) n = bit (uint w) n"
      using nb bit_imp_le_length [of w n]
      by (cases "n = 31") (auto simp: bit_take_bit_iff bit_uint_iff)
  qed
  finally show ?thesis .
qed

lemma twos_complement_neg: "TWOS_COMPLEMENT x = - x"
  by (simp add: TWOS_COMPLEMENT_def minus_eq_not_plus_1)

text \<open>
  The decoder by itself: it returns its argument when bit 31 is clear, and the negation
  of the low 31 bits when it is set; the wire value \<open>0x80000005\<close> decodes to \<open>-5\<close>.
\<close>

lemma decode_signed_alone:
  "decode_signed v = (if bit v 31 then - (v AND 0x7FFFFFFF) else v) \<and>
   sint (decode_signed v) = (if bit v 31 then - uint (v AND 0x7FFFFFFF) else uint v) \<and>
   sint (decode_signed 0x80000005) = - 5"
proof -
  have eq: "decode_signed w = (if bit w 31 then - (w AND 0x7FFFFFFF) else w)" for w
    by (simp add: decode_signed_def high_bit_test xor_high_bit twos_complement_neg)
  have "bit (0x80000005 :: u32) 31"
    by simp
  then have "sint (decode_signed 0x80000005) = - 5"
    by (simp add: eq)
  then show ?thesis
    by (simp add: eq sint_neg_magnitude sint_clear)
qed

subsection \<open>The version word and the sequence length\<close>

lemma nth_rest_steps:
  "rest_steps env ! 0 = rest_version"
  "rest_steps env ! 1 = rest_src_nevr env"
  "rest_steps env ! 2 = rest_sequence env"
  "rest_steps env ! 3 = rest_tgt_md5"
  "rest_steps env ! 4 = rest_tgt_comp env"
  "rest_steps env ! 5 = rest_offadj env"
  "rest_steps env ! 6 = rest_header_check"
  "rest_steps env ! 7 = rest_leadsig env"
  "rest_steps env ! 8 = rest_counts"
  "rest_steps env ! 9 = rest_int_copies env"
  "rest_steps env ! 10 = rest_ext_copies env"
  "rest_steps env ! 11 = rest_ext_data_len"
  "rest_steps env ! 12 = rest_add_data env"
  "rest_steps env ! 13 = rest_int_data_len"
  "rest_steps env ! 14 = rest_int_data env"
  "rest_steps env ! 15 = rest_check_int"
  "rest_steps env ! 16 = rest_check_ext"
  by (simp_all add: rest_steps_def)

lemma step_fails_fst:
  assumes "before_step env d name k = Some s" and "k < 17"
    and "fst ((rest_steps env ! k) s) = e" and "e \<noteq> DRPM_ERR_OK"
  shows "fst (read_deltarpm env (Some d) (Some name)) = e"
proof -
  obtain s' where "(rest_steps env ! k) s = (e, s')"
    using assms(3) by (cases "(rest_steps env ! k) s") auto
  from read_deltarpm_step_fails [OF assms(1,2) this assms(4)] show ?thesis
    by simp
qed

text \<open>
  C9: when \<^verbatim>\<open>read_deltarpm\<close> arrives at the sequence (step 2 of \<^verbatim>\<open>readdelta_rest\<close>) and
  the length it reads there is \<open>n\<close>, then \<open>n < 16\<close> makes it return
  \<^verbatim>\<open>DRPM_ERR_FORMAT\<close> (so does 15), and for a standard delta every \<open>n \<ge> 16\<close> passes the
  check: the step goes on to allocate and read the \<open>n\<close> bytes, and fails only when the
  allocator refuses or the stream is shorter than \<open>n\<close>.
\<close>

theorem sequence_len_checked:
  assumes "before_step env d name 2 = Some s"
    and "decompstrm_read_be32 s = Inr (n, s1)"
  shows "(n < 16 \<longrightarrow> fst (read_deltarpm env (Some d) (Some name)) = DRPM_ERR_FORMAT) \<and>
         (16 \<le> n \<and> type (delta s) = DRPM_TYPE_STANDARD \<longrightarrow>
            fst (rest_sequence env s) =
              (if \<not> malloc_ok env (unat n) then DRPM_ERR_MEMORY
               else if length (strm s1) < unat n then DRPM_ERR_FORMAT
               else DRPM_ERR_OK))"
proof (intro conjI impI)
  assume "n < 16"
  with assms(2) have "fst (rest_sequence env s) = DRPM_ERR_FORMAT"
    by (simp add: rest_sequence_def MD5_DIGEST_LENGTH_def)
  then show "fst (read_deltarpm env (Some d) (Some name)) = DRPM_ERR_FORMAT"
    using step_fails_fst [OF assms(1), of DRPM_ERR_FORMAT] by (simp add: nth_rest_steps)
next
  assume a: "16 \<le> n \<and> type (delta s) = DRPM_TYPE_STANDARD"
  from assms(2) have t: "type (delta s1) = type (delta s)"
    by (auto simp: decompstrm_read_be32_def decompstrm_read_def split: sum.splits)
  from a have "\<not> n < 16"
    by (simp add: not_less)
  with a t assms(2) show "fst (rest_sequence env s) =
      (if \<not> malloc_ok env (unat n) then DRPM_ERR_MEMORY
       else if length (strm s1) < unat n then DRPM_ERR_FORMAT
       else DRPM_ERR_OK)"
    by (simp add: rest_sequence_def MD5_DIGEST_LENGTH_def malloc_def decompstrm_read_def
        strm_take_def Let_def)
qed

theorem sequence_len_checked_witness:
  "fst (read_deltarpm ex_env (Some delta_init) (Some ''seq15.drpm'')) = DRPM_ERR_FORMAT \<and>
   (\<exists>s. before_step ex_env delta_init ''standard.drpm'' 2 = Some s \<and>
        type (delta s) = DRPM_TYPE_STANDARD \<and> fst (rest_sequence ex_env s) = DRPM_ERR_OK)"
proof -
  have "\<exists>s s1. before_step ex_env delta_init ''seq15.drpm'' 2 = Some s \<and>
      decompstrm_read_be32 s = Inr (15, s1)"
    by (simp add: before_step_def entry_defs step_defs prim_defs ex_defs Let_def)
  then obtain s s1 where a: "before_step ex_env delta_init ''seq15.drpm'' 2 = Some s"
    and b: "decompstrm_read_be32 s = Inr (15, s1)"
    by blast
  have "\<exists>s s1. before_step ex_env delta_init ''standard.drpm'' 2 = Some s \<and>
      decompstrm_read_be32 s = Inr (17, s1) \<and> type (delta s) = DRPM_TYPE_STANDARD \<and>
      \<not> length (strm s1) < 17"
    by (simp add: before_step_def entry_defs step_defs prim_defs ex_defs Let_def)
  then obtain t t1 where c: "before_step ex_env delta_init ''standard.drpm'' 2 = Some t"
    and d: "decompstrm_read_be32 t = Inr (17, t1)"
    and e: "type (delta t) = DRPM_TYPE_STANDARD" "\<not> length (strm t1) < 17"
    by blast
  from sequence_len_checked [OF a b] sequence_len_checked [OF c d] c e show ?thesis
    by (simp add: ex_env_def)
qed

lemma bad_magic_rejected:
  assumes "before_step env d name 0 = Some s"
    and "decompstrm_read_be32 s = Inr (v, s1)" and "\<not> MAGIC_DLT v"
  shows "fst (read_deltarpm env (Some d) (Some name)) = DRPM_ERR_FORMAT"
proof -
  from assms(2,3) have "fst (rest_version s) = DRPM_ERR_FORMAT"
    by (simp add: rest_version_def)
  then show ?thesis
    using step_fails_fst [OF assms(1), of DRPM_ERR_FORMAT] by (simp add: nth_rest_steps)
qed

text \<open>
  C1: the version is the low byte of the first word minus \<open>0x30\<close>, and the claim is that
  any value other than 1, 2 or 3 is refused with \<^verbatim>\<open>DRPM_ERR_FORMAT\<close>. The magic is checked
  (\<open>bad_magic_rejected\<close>), the version is compared with 3 for rpm-only deltas only: the
  standard delta whose body starts with \<open>DLT4\<close> is read with success, as version 4.
\<close>

theorem version_4_accepted:
  "\<exists>s. read_deltarpm ex_env (Some delta_init) (Some ''dlt4.drpm'') = (DRPM_ERR_OK, Some s) \<and>
       version (delta s) = 4 \<and> type (delta s) = DRPM_TYPE_STANDARD"
  by (simp add: entry_defs step_defs prim_defs ex_defs Let_def)

subsection \<open>What the steps leave unchanged\<close>




























subsection \<open>The invariants of an rpm-only delta\<close>








subsection \<open>The walk over the internal copies\<close>

text \<open>
  The walk as the specification words it: the running total after \<open>k\<close> pairs of the
  internal-copy table, that is the sum of the second members (the odd cells) of the first
  \<open>k\<close> pairs, as a natural number.
\<close>

primrec int_total :: "(nat \<Rightarrow> u32) \<Rightarrow> nat \<Rightarrow> nat" where
  "int_total tab 0 = 0"
| "int_total tab (Suc k) = int_total tab k + unat (tab (2 * k + 1))"

lemma int_total_bound: "int_total tab k \<le> k * 2 ^ 32"
proof (induction k)
  case 0
  show ?case by simp
next
  case (Suc k)
  have "unat (tab (2 * k + 1)) < 2 ^ 32"
    using unsigned_less [of "tab (2 * k + 1)"] by simp
  with Suc show ?case by simp
qed

lemma pairs_of_size:
  fixes count :: u32
  shows "unat (count * 2) = 2 * (unat (count * 2) div 2)" and "unat (count * 2) div 2 < 2 ^ 31"
proof -
  have "unat (count * 2) = (unat count * 2) mod 2 ^ 32"
    by (simp add: unat_word_ariths)
  moreover have "even ((unat count * 2) mod 2 ^ 32)"
    by (rule dvd_mod) simp_all
  ultimately have "even (unat (count * 2))"
    by simp
  then show "unat (count * 2) = 2 * (unat (count * 2) div 2)"
    by simp
  have "unat (count * 2) < 2 ^ 32"
    using unsigned_less [of "count * 2"] by simp
  then show "unat (count * 2) div 2 < 2 ^ 31"
    by simp
qed

lemma index_less_iff:
  fixes count :: u32
  assumes "i \<le> unat (count * 2) + 1"
  shows "(of_nat i :: u32) < count * 2 \<longleftrightarrow> i < unat (count * 2)"
    and "unat (of_nat i :: u32) = i"
proof -
  have "unat (count * 2) div 2 < 2147483648"
    using pairs_of_size(2) [of count] by simp
  moreover have "unat (count * 2) = 2 * (unat (count * 2) div 2)"
    by (rule pairs_of_size(1))
  ultimately have "unat (count * 2) + 1 < 4294967296"
    by linarith
  with assms have "i < 2 ^ 32"
    by simp
  then show u: "unat (of_nat i :: u32) = i"
    by (simp add: unat_of_nat)
  show "(of_nat i :: u32) < count * 2 \<longleftrightarrow> i < unat (count * 2)"
    by (simp add: word_less_nat_alt u)
qed

lemma int_copies_walk_step:
  "i < count * 2 \<Longrightarrow>
     int_copies_walk tab len count i off =
       (if off + ucast (tab (unat i)) > len then DRPM_ERR_FORMAT
        else int_copies_walk tab len count (i + 2) (off + ucast (tab (unat i))))"
  by (subst int_copies_walk.simps) (simp add: Let_def)

lemma int_copies_walk_stop:
  "\<not> i < count * 2 \<Longrightarrow> int_copies_walk tab len count i off = DRPM_ERR_OK"
  by (subst int_copies_walk.simps) simp

lemma int_copies_walk_from:
  fixes count :: u32 and len :: u64
  assumes "n = unat (count * 2) div 2" and "k \<le> n" and "int_total tab k \<le> unat len"
  shows "int_copies_walk tab len count (of_nat (2 * k + 1)) (of_nat (int_total tab k)) =
           (if \<forall>j. k < j \<and> j \<le> n \<longrightarrow> int_total tab j \<le> unat len
            then DRPM_ERR_OK else DRPM_ERR_FORMAT)"
  using assms(2,3)
proof (induction "n - k" arbitrary: k)
  case 0
  then have "k = n" by simp
  then have "\<not> (of_nat (2 * k + 1) :: u32) < count * 2"
    using index_less_iff(1) [of "2 * k + 1" count] pairs_of_size(1) [of count] assms(1)
    by simp
  then have "int_copies_walk tab len count (of_nat (2 * k + 1)) (of_nat (int_total tab k)) =
      DRPM_ERR_OK"
    by (rule int_copies_walk_stop)
  with \<open>k = n\<close> show ?case
    by simp
next
  case (Suc m)
  then have kn: "k < n" by simp
  define I :: u32 where "I = of_nat (2 * k + 1)"
  define I' :: u32 where "I' = of_nat (2 * Suc k + 1)"
  define T where "T = int_total tab k"
  define T' where "T' = int_total tab (Suc k)"
  have i: "I < count * 2" "unat I = 2 * k + 1"
    using index_less_iff [of "2 * k + 1" count] pairs_of_size(1) [of count] assms(1) kn
    by (simp_all add: I_def)
  have step: "of_nat T + (ucast (tab (2 * k + 1)) :: u64) = of_nat T'"
    by (simp add: T_def T'_def)
  have "Suc k \<le> 2 ^ 31"
    using kn pairs_of_size(2) [of count] assms(1) by simp
  then have "Suc k * 2 ^ 32 \<le> 2 ^ 31 * (2 ^ 32 :: nat)"
    by (rule mult_le_mono1)
  with int_total_bound [of tab "Suc k"] have small: "T' < 2 ^ 64"
    by (simp add: T'_def del: int_total.simps)
  then have u: "unat (of_nat T' :: u64) = T'"
    by (simp add: unat_of_nat)
  have gt: "(of_nat T' :: u64) > len \<longleftrightarrow> T' > unat len"
    by (simp add: word_less_nat_alt u)
  have nx: "I + 2 = I'"
    by (simp add: I_def I'_def)
  have unfold: "int_copies_walk tab len count I (of_nat T) =
      (if T' > unat len then DRPM_ERR_FORMAT else int_copies_walk tab len count I' (of_nat T'))"
    using int_copies_walk_step [OF i(1), of tab len "of_nat T"]
    by (simp only: i(2) step nx gt)
  show ?case
  proof (cases "T' \<le> unat len")
    case True
    with Suc.hyps(1) [of "Suc k"] Suc.hyps(2) kn
    have ih: "int_copies_walk tab len count I' (of_nat T') =
        (if \<forall>j. Suc k < j \<and> j \<le> n \<longrightarrow> int_total tab j \<le> unat len
         then DRPM_ERR_OK else DRPM_ERR_FORMAT)"
      by (simp add: I'_def T'_def del: int_total.simps)
    have "(\<forall>j. k < j \<and> j \<le> n \<longrightarrow> int_total tab j \<le> unat len) \<longleftrightarrow>
        (\<forall>j. Suc k < j \<and> j \<le> n \<longrightarrow> int_total tab j \<le> unat len)"
      using True unfolding T'_def by (metis Suc_lessI less_imp_le_nat Suc_lessD)
    with True ih unfold show ?thesis
      by (simp add: I_def T_def del: int_total.simps of_nat_add of_nat_Suc of_nat_mult)
  next
    case False
    then have "\<not> (\<forall>j. k < j \<and> j \<le> n \<longrightarrow> int_total tab j \<le> unat len)"
      using kn unfolding T'_def by (metis Suc_leI lessI)
    with False unfold show ?thesis
      by (simp add: I_def T_def del: int_total.simps of_nat_add of_nat_Suc of_nat_mult)
  qed
qed

lemma int_copies_walk_iff:
  fixes count :: u32 and len :: u64
  shows "int_copies_walk tab len count 1 0 =
           (if \<forall>j \<le> unat (count * 2) div 2. int_total tab j \<le> unat len
            then DRPM_ERR_OK else DRPM_ERR_FORMAT)"
proof -
  have "(\<forall>j. 0 < j \<and> j \<le> unat (count * 2) div 2 \<longrightarrow> int_total tab j \<le> unat len) \<longleftrightarrow>
      (\<forall>j \<le> unat (count * 2) div 2. int_total tab j \<le> unat len)"
    by (metis gr0I int_total.simps(1) le0)
  with int_copies_walk_from [of "unat (count * 2) div 2" count 0 tab len] show ?thesis
    by simp
qed


lemma last_steps:
  assumes "read_deltarpm env (Some d) (Some name) = (DRPM_ERR_OK, Some sf)"
  obtains s where "before_step env d name 15 = Some s"
    and "fst (rest_check_int s) = DRPM_ERR_OK" and "fst (rest_check_ext s) = DRPM_ERR_OK"
    and "delta sf = delta s" and "l_add_data_len sf = l_add_data_len s"
proof -
  from read_deltarpm_OK [OF assms] obtain s17 where b17: "before_step env d name 17 = Some s17"
    and sf: "sf = sys_close (decompstrm_destroy s17)"
    by blast
  from before_step_pred [of env d name 16 s17] b17 obtain s16 where
    b16: "before_step env d name 16 = Some s16" and st16: "rest_check_ext s16 = (DRPM_ERR_OK, s17)"
    by (auto simp: nth_rest_steps)
  from before_step_pred [of env d name 15 s16] b16 obtain s15 where
    b15: "before_step env d name 15 = Some s15" and st15: "rest_check_int s15 = (DRPM_ERR_OK, s16)"
    by (auto simp: nth_rest_steps)
  from st15 have e1: "s16 = s15"
    by (simp add: rest_check_int_def)
  from st16 have e2: "s17 = s16"
    by (simp add: rest_check_ext_def)
  show ?thesis
  proof (rule that [OF b15])
    show "fst (rest_check_int s15) = DRPM_ERR_OK"
      using st15 by simp
    show "fst (rest_check_ext s15) = DRPM_ERR_OK"
      using st16 e1 by simp
    show "delta sf = delta s15" "l_add_data_len sf = l_add_data_len s15"
      using sf e1 e2 by (simp_all add: sys_close_def decompstrm_destroy_def)
  qed
qed

text \<open>
  C4: the table has \<open>unat (int_copies_count * 2) div 2\<close> pairs (the count itself, when
  twice the count fits in 32 bits). For every record that \<^verbatim>\<open>read_deltarpm\<close> returns with
  success, the sum of the second members of the first \<open>k\<close> pairs is at most
  \<^verbatim>\<open>int_data_len\<close>, for every \<open>k\<close> up to the number of pairs. And when the parser arrives
  at the walk (step 15) with a table whose sum exceeds \<^verbatim>\<open>int_data_len\<close> at some pair,
  \<^verbatim>\<open>read_deltarpm\<close> returns \<^verbatim>\<open>DRPM_ERR_FORMAT\<close>.
\<close>

theorem int_copies_bounded:
  "(\<forall>s. read_deltarpm env (Some d) (Some name) = (DRPM_ERR_OK, Some s) \<longrightarrow>
      (\<forall>k \<le> unat (int_copies_count (delta s) * 2) div 2.
         int_total (table_word (int_copies (delta s))) k \<le> unat (int_data_len (delta s)))) \<and>
   (\<forall>s. before_step env d name 15 = Some s \<and>
      (\<exists>k \<le> unat (int_copies_count (delta s) * 2) div 2.
         int_total (table_word (int_copies (delta s))) k > unat (int_data_len (delta s))) \<longrightarrow>
      fst (read_deltarpm env (Some d) (Some name)) = DRPM_ERR_FORMAT)"
proof -
  have p1: "\<forall>s. read_deltarpm env (Some d) (Some name) = (DRPM_ERR_OK, Some s) \<longrightarrow>
      (\<forall>k \<le> unat (int_copies_count (delta s) * 2) div 2.
         int_total (table_word (int_copies (delta s))) k \<le> unat (int_data_len (delta s)))"
  proof (intro allI impI)
    fix sf k
    assume ok: "read_deltarpm env (Some d) (Some name) = (DRPM_ERR_OK, Some sf)"
      and k: "k \<le> unat (int_copies_count (delta sf) * 2) div 2"
    from ok obtain s where w: "fst (rest_check_int s) = DRPM_ERR_OK" and e: "delta sf = delta s"
      by (rule last_steps)
    from w have "\<forall>j \<le> unat (int_copies_count (delta s) * 2) div 2.
        int_total (table_word (int_copies (delta s))) j \<le> unat (int_data_len (delta s))"
      by (simp add: rest_check_int_def int_copies_walk_iff split: if_splits)
    with k e show "int_total (table_word (int_copies (delta sf))) k \<le> unat (int_data_len (delta sf))"
      by simp
  qed
  have p2: "\<forall>s. before_step env d name 15 = Some s \<and>
      (\<exists>k \<le> unat (int_copies_count (delta s) * 2) div 2.
         int_total (table_word (int_copies (delta s))) k > unat (int_data_len (delta s))) \<longrightarrow>
      fst (read_deltarpm env (Some d) (Some name)) = DRPM_ERR_FORMAT"
  proof (intro allI impI)
    fix s
    assume a: "before_step env d name 15 = Some s \<and>
      (\<exists>k \<le> unat (int_copies_count (delta s) * 2) div 2.
         int_total (table_word (int_copies (delta s))) k > unat (int_data_len (delta s)))"
    then have "\<not> (\<forall>j \<le> unat (int_copies_count (delta s) * 2) div 2.
        int_total (table_word (int_copies (delta s))) j \<le> unat (int_data_len (delta s)))"
      by (simp add: not_le)
    then have "fst (rest_check_int s) = DRPM_ERR_FORMAT"
      by (simp add: rest_check_int_def int_copies_walk_iff)
    with a show "fst (read_deltarpm env (Some d) (Some name)) = DRPM_ERR_FORMAT"
      using step_fails_fst [of env d name 15 s DRPM_ERR_FORMAT] by (simp add: nth_rest_steps)
  qed
  from p1 p2 show ?thesis
    by (intro conjI)
qed

lemma int_total_2: "int_total tab 2 = unat (tab 1) + unat (tab 3)"
  by (simp add: numeral_2_eq_2 numeral_3_eq_3)

theorem int_copies_bounded_witness:
  "(\<exists>s. read_deltarpm ex_env (Some delta_init) (Some ''standard.drpm'') = (DRPM_ERR_OK, Some s) \<and>
        int_copies_count (delta s) = 2 \<and> int_data_len (delta s) = 6 \<and>
        int_total (table_word (int_copies (delta s))) 2 \<le> 6) \<and>
   fst (read_deltarpm ex_env (Some delta_init) (Some ''int7.drpm'')) = DRPM_ERR_FORMAT"
proof -
  have "\<exists>s. read_deltarpm ex_env (Some delta_init) (Some ''standard.drpm'') = (DRPM_ERR_OK, Some s) \<and>
      int_copies_count (delta s) = 2 \<and> int_data_len (delta s) = 6"
    by (simp add: entry_defs step_defs prim_defs ex_defs Let_def)
  then obtain s where a: "read_deltarpm ex_env (Some delta_init) (Some ''standard.drpm'') =
      (DRPM_ERR_OK, Some s)" and b: "int_copies_count (delta s) = 2" "int_data_len (delta s) = 6"
    by blast
  have "(2::nat) \<le> unat (int_copies_count (delta s) * 2) div 2"
    using b by simp
  with int_copies_bounded [of ex_env delta_init "''standard.drpm''", THEN conjunct1, THEN spec,
      of s] a b
  have x: "int_total (table_word (int_copies (delta s))) 2 \<le> 6"
    by (auto simp del: int_total.simps)
  have "\<exists>t. before_step ex_env delta_init ''int7.drpm'' 15 = Some t \<and>
      int_copies_count (delta t) = 2 \<and> int_data_len (delta t) = 6 \<and>
      table_word (int_copies (delta t)) 1 = 2 \<and> table_word (int_copies (delta t)) 3 = 5"
    by (simp add: before_step_def entry_defs step_defs prim_defs ex_defs Let_def)
  then obtain t where c: "before_step ex_env delta_init ''int7.drpm'' 15 = Some t"
    and e: "int_copies_count (delta t) = 2" "int_data_len (delta t) = 6"
      "table_word (int_copies (delta t)) 1 = 2" "table_word (int_copies (delta t)) 3 = 5"
    by blast
  from e have "int_total (table_word (int_copies (delta t))) 2 > unat (int_data_len (delta t))"
    by (simp add: int_total_2)
  moreover from e have "(2::nat) \<le> unat (int_copies_count (delta t) * 2) div 2"
    by simp
  ultimately have "\<exists>k \<le> unat (int_copies_count (delta t) * 2) div 2.
      int_total (table_word (int_copies (delta t))) k > unat (int_data_len (delta t))"
    by blast
  with int_copies_bounded [of ex_env delta_init "''int7.drpm''", THEN conjunct2, THEN spec,
      of t] c
  have "fst (read_deltarpm ex_env (Some delta_init) (Some ''int7.drpm'')) = DRPM_ERR_FORMAT"
    by simp
  with a b x show ?thesis
    by simp
qed

subsection \<open>The walk over the external copies\<close>

text \<open>
  The walk as the specification words it: the running total after \<open>k\<close> pairs of the
  external-copy table, as an integer. The first member of a pair (an even cell) is added
  as a signed value, the second (an odd cell) as an unsigned one. The program keeps
  this total in the 64 bits of \<^verbatim>\<open>off\<close>, that is modulo \<open>2 ^ 64\<close>.
\<close>

primrec ext_total :: "(nat \<Rightarrow> u32) \<Rightarrow> nat \<Rightarrow> int" where
  "ext_total tab 0 = 0"
| "ext_total tab (Suc k) = ext_total tab k + sint (tab (2 * k)) + uint (tab (2 * k + 1))"









lemma ext_total_small:
  "ext_total tab 1 = sint (tab 0) + uint (tab 1)"
  "ext_total tab 2 = sint (tab 0) + uint (tab 1) + sint (tab 2) + uint (tab 3)"
  by (simp_all add: numeral_2_eq_2 numeral_3_eq_3)


subsection \<open>The tables on the wire\<close>

text \<open>The \<open>j\<close>-th 32-bit word of a byte stream, counted from 0.\<close>

definition wire_word :: "u8 list \<Rightarrow> nat \<Rightarrow> u32" where
  "wire_word bs j = parse_be32 (take 4 (drop (4 * j) bs))"

text \<open>
  The two-pass layout as the specification words it, for a table of \<open>n\<close> pairs that starts
  at the head of the stream \<open>bs\<close>: the first members of all pairs come first on the wire,
  then the second members. So the even cell \<open>2k\<close> holds word \<open>k\<close> of the stream, and the odd
  cell \<open>2k + 1\<close> holds word \<open>n + k\<close>, each after its decoder; no cell from \<open>2n\<close> on is
  written.
\<close>

definition two_pass_cells ::
  "(u32 \<Rightarrow> u32) \<Rightarrow> (u32 \<Rightarrow> u32) \<Rightarrow> nat \<Rightarrow> u8 list \<Rightarrow> (nat \<rightharpoonup> u32)"
where
  "two_pass_cells post_even post_odd n bs j =
     (if j < 2 * n then
        Some (if even j then post_even (wire_word bs (j div 2))
              else post_odd (wire_word bs (n + j div 2)))
      else None)"

lemma wire_word_drop: "wire_word (drop (4 * m) bs) j = wire_word bs (m + j)"
  by (simp add: wire_word_def algebra_simps)

lemma strm_be32_long: "4 \<le> length bs \<Longrightarrow> strm_be32 bs = Inr (wire_word bs 0, drop 4 bs)"
  by (simp add: strm_be32_def strm_take_def wire_word_def)

lemma strm_be32_short: "length bs < 4 \<Longrightarrow> strm_be32 bs = Inl DRPM_ERR_FORMAT"
  by (simp add: strm_be32_def strm_take_def)

lemma even_index:
  fixes sz :: u32
  assumes "unat sz = 2 * n" and "i \<le> 2 * n + 1"
  shows "unat (of_nat i :: u32) = i" and "(of_nat i :: u32) < sz \<longleftrightarrow> i < 2 * n"
proof -
  have "unat sz < 4294967296"
    using unsigned_less [of sz] by simp
  with assms(1) have "n < 2147483648"
    by simp
  with assms(2) have "i < 4294967296"
    by linarith
  then show u: "unat (of_nat i :: u32) = i"
    by (simp add: unat_of_nat)
  show "(of_nat i :: u32) < sz \<longleftrightarrow> i < 2 * n"
    by (simp add: word_less_nat_alt u assms(1))
qed

lemma read_column_step:
  "i < sz \<Longrightarrow> 4 \<le> length bs \<Longrightarrow>
     read_column post sz i bs cells =
       read_column post sz (i + 2) (drop 4 bs) (cells(unat i \<mapsto> post (wire_word bs 0)))"
  by (subst read_column.simps) (simp add: strm_be32_long)

lemma read_column_stop: "\<not> i < sz \<Longrightarrow> read_column post sz i bs cells = (DRPM_ERR_OK, bs, cells)"
  by (subst read_column.simps) simp

lemma read_column_fail:
  "i < sz \<Longrightarrow> length bs < 4 \<Longrightarrow> read_column post sz i bs cells = (DRPM_ERR_FORMAT, bs, cells)"
  by (subst read_column.simps) (simp add: strm_be32_short)

text \<open>
  The cells after one loop that starts at pair \<open>k\<close> with parity \<open>p\<close> on the stream \<open>bs\<close>.
\<close>

definition column_cells ::
  "(u32 \<Rightarrow> u32) \<Rightarrow> nat \<Rightarrow> nat \<Rightarrow> nat \<Rightarrow> u8 list \<Rightarrow> (nat \<rightharpoonup> u32) \<Rightarrow> (nat \<rightharpoonup> u32)"
where
  "column_cells post p n k bs cells j =
     (if 2 * k + p \<le> j \<and> j < 2 * n \<and> j mod 2 = p
      then Some (post (wire_word bs ((j - p) div 2 - k))) else cells j)"

lemma column_cells_step:
  assumes "p < 2" and "k < n" and "4 \<le> length bs"
  shows "column_cells post p n (Suc k) (drop 4 bs) (cells(2 * k + p \<mapsto> post (wire_word bs 0))) =
         column_cells post p n k bs cells"
proof (rule ext)
  fix j
  have w: "wire_word (drop 4 bs) m = wire_word bs (Suc m)" for m
    using wire_word_drop [of 1 bs m] by simp
  show "column_cells post p n (Suc k) (drop 4 bs) (cells(2 * k + p \<mapsto> post (wire_word bs 0))) j =
      column_cells post p n k bs cells j"
  proof (cases "j = 2 * k + p")
    case True
    with assms show ?thesis
      by (simp add: column_cells_def)
  next
    case False
    have c: "(2 * Suc k + p \<le> j \<and> j mod 2 = p) \<longleftrightarrow> (2 * k + p \<le> j \<and> j mod 2 = p)"
      using False assms(1) by presburger
    have d: "(j - p) div 2 - k = Suc ((j - p) div 2 - Suc k)" if "2 * Suc k + p \<le> j"
      using that by presburger
    show ?thesis
    proof (cases "2 * Suc k + p \<le> j \<and> j mod 2 = p")
      case True
      with c d show ?thesis
        by (simp add: column_cells_def w)
    next
      case n: False
      with c False show ?thesis
        by (auto simp: column_cells_def)
    qed
  qed
qed

lemma read_column_ok:
  fixes sz :: u32
  assumes "unat sz = 2 * n" and "p < 2"
  shows "k \<le> n \<Longrightarrow> 4 * (n - k) \<le> length bs \<Longrightarrow>
     read_column post sz (of_nat (2 * k + p)) bs cells =
       (DRPM_ERR_OK, drop (4 * (n - k)) bs, column_cells post p n k bs cells)"
proof (induction "n - k" arbitrary: k bs cells)
  case 0
  then have kn: "k = n" by simp
  then have "\<not> (of_nat (2 * k + p) :: u32) < sz"
    using even_index(2) [OF assms(1), of "2 * k + p"] assms(2) by simp
  then have "read_column post sz (of_nat (2 * k + p)) bs cells = (DRPM_ERR_OK, bs, cells)"
    by (rule read_column_stop)
  moreover have "column_cells post p n k bs cells = cells"
    using kn by (intro ext) (auto simp: column_cells_def)
  ultimately show ?case
    using kn by simp
next
  case (Suc m)
  then have kn: "k < n" by simp
  define I :: u32 where "I = of_nat (2 * k + p)"
  have le: "2 * k + p \<le> 2 * n + 1"
    using kn assms(2) by simp
  have i: "I < sz" "unat I = 2 * k + p"
    using even_index [OF assms(1) le] kn assms(2) by (simp_all add: I_def)
  have nx: "I + 2 = of_nat (2 * Suc k + p)"
    by (simp add: I_def)
  have len: "4 \<le> length bs"
    using Suc.prems(2) kn by simp
  have "read_column post sz I bs cells =
      read_column post sz (of_nat (2 * Suc k + p)) (drop 4 bs)
        (cells(2 * k + p \<mapsto> post (wire_word bs 0)))"
    using read_column_step [OF i(1) len, of post cells] by (simp only: i(2) nx)
  also have "\<dots> = (DRPM_ERR_OK, drop (4 * (n - Suc k)) (drop 4 bs),
      column_cells post p n (Suc k) (drop 4 bs) (cells(2 * k + p \<mapsto> post (wire_word bs 0))))"
    using Suc.hyps(2) Suc.prems(2) kn by (intro Suc.hyps(1)) simp_all
  also have "drop (4 * (n - Suc k)) (drop 4 bs) = drop (4 * (n - k)) bs"
    using kn by (simp add: algebra_simps)
  finally show ?case
    unfolding I_def by (simp only: column_cells_step [OF assms(2) kn len, of post cells])
qed

lemma read_column_short:
  fixes sz :: u32
  assumes "unat sz = 2 * n" and "p < 2"
  shows "k \<le> n \<Longrightarrow> length bs < 4 * (n - k) \<Longrightarrow>
     fst (read_column post sz (of_nat (2 * k + p)) bs cells) = DRPM_ERR_FORMAT"
proof (induction "n - k" arbitrary: k bs cells)
  case 0
  then show ?case by simp
next
  case (Suc m)
  then have kn: "k < n" by simp
  define I :: u32 where "I = of_nat (2 * k + p)"
  have le: "2 * k + p \<le> 2 * n + 1"
    using kn assms(2) by simp
  have i: "I < sz" "unat I = 2 * k + p"
    using even_index [OF assms(1) le] kn assms(2) by (simp_all add: I_def)
  have nx: "I + 2 = of_nat (2 * Suc k + p)"
    by (simp add: I_def)
  show ?case
  proof (cases "length bs < 4")
    case True
    with i(1) have "fst (read_column post sz I bs cells) = DRPM_ERR_FORMAT"
      by (simp add: read_column_fail)
    then show ?thesis
      by (simp only: I_def)
  next
    case False
    then have len: "4 \<le> length bs" by simp
    have "read_column post sz I bs cells =
        read_column post sz (of_nat (2 * Suc k + p)) (drop 4 bs)
          (cells(2 * k + p \<mapsto> post (wire_word bs 0)))"
      using read_column_step [OF i(1) len, of post cells] by (simp only: i(2) nx)
    moreover have "fst (read_column post sz (of_nat (2 * Suc k + p)) (drop 4 bs)
          (cells(2 * k + p \<mapsto> post (wire_word bs 0)))) = DRPM_ERR_FORMAT"
      using Suc.hyps(2) Suc.prems(2) kn len by (intro Suc.hyps(1)) simp_all
    ultimately have "fst (read_column post sz I bs cells) = DRPM_ERR_FORMAT"
      by (simp only:)
    then show ?thesis
      by (simp only: I_def)
  qed
qed

lemma read_table_ok:
  fixes sz :: u32
  assumes "unat sz = 2 * n" and "8 * n \<le> length bs"
  shows "read_table post_even post_odd sz bs =
           (DRPM_ERR_OK, drop (8 * n) bs, two_pass_cells post_even post_odd n bs)"
proof -
  let ?c1 = "column_cells post_even 0 n 0 bs Map.empty"
  let ?bs1 = "drop (4 * n) bs"
  have "read_column post_even sz (of_nat (2 * 0 + 0)) bs Map.empty =
      (DRPM_ERR_OK, drop (4 * (n - 0)) bs, ?c1)"
    using assms(2) by (intro read_column_ok [OF assms(1)]) simp_all
  then have one: "read_column post_even sz 0 bs Map.empty = (DRPM_ERR_OK, ?bs1, ?c1)"
    by simp
  have "read_column post_odd sz (of_nat (2 * 0 + 1)) ?bs1 ?c1 =
      (DRPM_ERR_OK, drop (4 * (n - 0)) ?bs1, column_cells post_odd 1 n 0 ?bs1 ?c1)"
    using assms(2) by (intro read_column_ok [OF assms(1)]) simp_all
  then have two: "read_column post_odd sz 1 ?bs1 ?c1 =
      (DRPM_ERR_OK, drop (8 * n) bs, column_cells post_odd 1 n 0 ?bs1 ?c1)"
    by simp
  have cells: "column_cells post_odd 1 n 0 ?bs1 ?c1 = two_pass_cells post_even post_odd n bs"
  proof (rule ext)
    fix j
    have "odd j \<Longrightarrow> (j - 1) div 2 = j div (2::nat)"
      by presburger
    then show "column_cells post_odd 1 n 0 ?bs1 ?c1 j = two_pass_cells post_even post_odd n bs j"
      by (auto simp: column_cells_def two_pass_cells_def wire_word_drop odd_iff_mod_2_eq_one)
  qed
  from one two cells show ?thesis
    by (simp add: read_table_def)
qed

lemma read_table_short:
  fixes sz :: u32
  assumes "unat sz = 2 * n" and "length bs < 8 * n"
  shows "fst (read_table post_even post_odd sz bs) = DRPM_ERR_FORMAT"
proof (cases "length bs < 4 * n")
  case True
  have "fst (read_column post_even sz (of_nat (2 * 0 + 0)) bs Map.empty) = DRPM_ERR_FORMAT"
    using True by (intro read_column_short [OF assms(1)]) simp_all
  then show ?thesis
    by (cases "read_column post_even sz 0 bs Map.empty") (auto simp: read_table_def)
next
  case False
  let ?c1 = "column_cells post_even 0 n 0 bs Map.empty"
  let ?bs1 = "drop (4 * n) bs"
  have "read_column post_even sz (of_nat (2 * 0 + 0)) bs Map.empty =
      (DRPM_ERR_OK, drop (4 * (n - 0)) bs, ?c1)"
    using False by (intro read_column_ok [OF assms(1)]) simp_all
  then have one: "read_column post_even sz 0 bs Map.empty = (DRPM_ERR_OK, ?bs1, ?c1)"
    by simp
  have "fst (read_column post_odd sz (of_nat (2 * 0 + 1)) ?bs1 ?c1) = DRPM_ERR_FORMAT"
    using assms(2) False by (intro read_column_short [OF assms(1)]) simp_all
  with one show ?thesis
    by (simp add: read_table_def)
qed

lemma read_table_into_OK:
  fixes sz :: u32
  assumes "read_table_into env store post_even post_odd sz s = (DRPM_ERR_OK, s')"
    and "unat sz = 2 * n"
  shows "malloc_ok env (unat (sz * 4))" and "8 * n \<le> length (strm s)"
    and "strm s' = drop (8 * n) (strm s)"
    and "delta s' = store (Some \<lparr>tab_bytes = unat (sz * 4),
            tab_cells = two_pass_cells post_even post_odd n (strm s)\<rparr>) (delta s)"
    and "heap s' = heap s + 1"
proof -
  show m: "malloc_ok env (unat (sz * 4))"
    using assms(1) by (auto simp: read_table_into_def malloc_def split: if_splits)
  show l: "8 * n \<le> length (strm s)"
  proof (rule ccontr)
    assume "\<not> 8 * n \<le> length (strm s)"
    then have "fst (read_table post_even post_odd sz (strm s)) = DRPM_ERR_FORMAT"
      by (intro read_table_short [OF assms(2)]) simp
    with assms(1) m show False
      by (auto simp: read_table_into_def malloc_def split: prod.splits)
  qed
  from read_table_ok [OF assms(2) l, of post_even post_odd] assms(1) m
  show "strm s' = drop (8 * n) (strm s)"
    and "delta s' = store (Some \<lparr>tab_bytes = unat (sz * 4),
            tab_cells = two_pass_cells post_even post_odd n (strm s)\<rparr>) (delta s)"
    and "heap s' = heap s + 1"
    by (auto simp: read_table_into_def malloc_def)
qed

lemma be32_long:
  "4 \<le> length (strm s) \<Longrightarrow>
     decompstrm_read_be32 s = Inr (wire_word (strm s) 0, s\<lparr>strm := drop 4 (strm s)\<rparr>)"
  by (simp add: decompstrm_read_be32_def decompstrm_read_def strm_take_def wire_word_def)

lemma wire_word_drop4: "wire_word (drop 4 bs) j = wire_word bs (Suc j)"
  using wire_word_drop [of 1 bs j] by simp

lemma size_is_even: "unat (c * 2 :: u32) = 2 * (unat (c * 2) div 2)"
  by (rule pairs_of_size(1))


lemma rest_ext_copies_cells:
  assumes "rest_ext_copies env s = (DRPM_ERR_OK, s')"
    and "ext_copies_count (delta s) * 2 \<noteq> 0"
  shows "strm s' = drop (8 * (unat (ext_copies_count (delta s) * 2) div 2)) (strm s)"
    and "ext_copies (delta s') =
           Some \<lparr>tab_bytes = unat (ext_copies_count (delta s) * 2 * 4),
                 tab_cells = two_pass_cells decode_signed id
                               (unat (ext_copies_count (delta s) * 2) div 2) (strm s)\<rparr>"
    and "ext_copies_count (delta s') = ext_copies_count (delta s)"
proof -
  from assms have r: "read_table_into env (\<lambda>t d. d\<lparr>ext_copies := t\<rparr>) decode_signed id
      (ext_copies_count (delta s) * 2) s = (DRPM_ERR_OK, s')"
    by (simp add: rest_ext_copies_def Let_def word_greater_zero_iff)
  from read_table_into_OK(3,4) [OF r size_is_even]
  show "strm s' = drop (8 * (unat (ext_copies_count (delta s) * 2) div 2)) (strm s)"
    and "ext_copies (delta s') =
           Some \<lparr>tab_bytes = unat (ext_copies_count (delta s) * 2 * 4),
                 tab_cells = two_pass_cells decode_signed id
                               (unat (ext_copies_count (delta s) * 2) div 2) (strm s)\<rparr>"
    and "ext_copies_count (delta s') = ext_copies_count (delta s)"
    by simp_all
qed

lemma rest_offadj_cells:
  assumes "rest_offadj env s = (DRPM_ERR_OK, s')"
    and "version (delta s) = 3"
    and "offadj_elems_count (delta s') \<noteq> 0"
  shows "strm s' = drop (8 * (unat (offadj_elems_count (delta s') * 2) div 2)) (drop 8 (strm s))"
    and "offadj_elems (delta s') =
           Some \<lparr>tab_bytes = unat (offadj_elems_count (delta s') * 2 * 4),
                 tab_cells = two_pass_cells id decode_signed
                               (unat (offadj_elems_count (delta s') * 2) div 2)
                               (drop 8 (strm s))\<rparr>"
    and "offadj_elems_count (delta s') = wire_word (strm s) 1"
proof -
  define c where "c = wire_word (strm s) 1"
  define s4 where "s4 = s\<lparr>strm := drop 8 (strm s),
    delta := (delta s)\<lparr>tgt_header_len := wire_word (strm s) 0, offadj_elems_count := c\<rparr>\<rparr>"
  from assms(1,2) have len: "8 \<le> length (strm s)"
    by (auto simp: rest_offadj_def decompstrm_read_be32_def decompstrm_read_def strm_take_def
        Let_def split: if_splits)
  have "rest_offadj env s = (if c > 0
      then read_table_into env (\<lambda>t d. d\<lparr>offadj_elems := t\<rparr>) id decode_signed (c * 2) s4
      else (DRPM_ERR_OK, s4))"
    using assms(2) len
    by (simp add: rest_offadj_def be32_long wire_word_drop4 Let_def s4_def c_def)
  with assms(1) have r: "(if c > 0
      then read_table_into env (\<lambda>t d. d\<lparr>offadj_elems := t\<rparr>) id decode_signed (c * 2) s4
      else (DRPM_ERR_OK, s4)) = (DRPM_ERR_OK, s')"
    by simp
  have c0: "c \<noteq> 0"
  proof
    assume "c = 0"
    with r have "s' = s4" by simp
    with assms(3) \<open>c = 0\<close> show False
      by (simp add: s4_def)
  qed
  with r have r': "read_table_into env (\<lambda>t d. d\<lparr>offadj_elems := t\<rparr>) id decode_signed (c * 2) s4 =
      (DRPM_ERR_OK, s')"
    by (simp add: word_greater_zero_iff)
  from read_table_into_OK(4) [OF r' size_is_even]
  have cnt: "offadj_elems_count (delta s') = c"
    by (simp add: s4_def)
  from read_table_into_OK(3,4) [OF r' size_is_even] cnt
  show "strm s' = drop (8 * (unat (offadj_elems_count (delta s') * 2) div 2)) (drop 8 (strm s))"
    and "offadj_elems (delta s') =
           Some \<lparr>tab_bytes = unat (offadj_elems_count (delta s') * 2 * 4),
                 tab_cells = two_pass_cells id decode_signed
                               (unat (offadj_elems_count (delta s') * 2) div 2)
                               (drop 8 (strm s))\<rparr>"
    by (simp_all add: s4_def)
  from cnt show "offadj_elems_count (delta s') = wire_word (strm s) 1"
    by (simp add: c_def)
qed

subsection \<open>Where the decoder is applied\<close>

text \<open>
  The word \<open>w\<close> that the claim wants stored for the wire value \<open>v\<close>: \<open>v\<close> itself when its
  high bit is clear, else the two's complement of the low 31 bits, that is minus this
  magnitude when \<open>w\<close> is read as a signed number.
\<close>

definition stored_signed :: "u32 \<Rightarrow> u32 \<Rightarrow> bool" where
  "stored_signed v w \<longleftrightarrow>
     w = (if bit v 31 then - (v AND 0x7FFFFFFF) else v) \<and>
     sint w = (if bit v 31 then - uint (v AND 0x7FFFFFFF) else uint v)"

lemma stored_signed_decode: "stored_signed v (decode_signed v)"
  by (simp add: stored_signed_def decode_signed_def high_bit_test xor_high_bit
      twos_complement_neg sint_neg_magnitude sint_clear)

text \<open>
  C5: the signed-magnitude decoder is applied to the odd offadj entries and to the even
  external-copy entries. When the offadj step of a version 3 delta succeeds, the odd cell
  \<open>2k + 1\<close> of the table it leaves in the record holds, for the wire value \<open>v\<close> of that
  entry (word \<open>n + k\<close> of the table on the wire, which starts 8 bytes into the stream of
  the step), \<open>v\<close> unchanged when the high bit of \<open>v\<close> is clear and the two's complement of
  \<open>v AND 0x7FFFFFFF\<close> when it is set. When the external-copy step succeeds, the same
  holds of the even cell \<open>2k\<close> and the wire value that is word \<open>k\<close> of the stream of the
  step. In the example the wire value \<open>0x80000005\<close> is stored as \<open>-5\<close>.
\<close>

theorem signed_entries_stored_decoded:
  "(\<forall>k. rest_offadj env s = (DRPM_ERR_OK, s') \<and> version (delta s) = 3 \<and>
        k < unat (offadj_elems_count (delta s') * 2) div 2 \<longrightarrow>
        (\<exists>t w. offadj_elems (delta s') = Some t \<and> tab_cells t (2 * k + 1) = Some w \<and>
           stored_signed
             (wire_word (drop 8 (strm s)) (unat (offadj_elems_count (delta s') * 2) div 2 + k))
             w)) \<and>
   (\<forall>k. rest_ext_copies env s = (DRPM_ERR_OK, s') \<and>
        k < unat (ext_copies_count (delta s) * 2) div 2 \<longrightarrow>
        (\<exists>t w. ext_copies (delta s') = Some t \<and> tab_cells t (2 * k) = Some w \<and>
           stored_signed (wire_word (strm s) k) w))"
proof -
  have p1: "\<forall>k. rest_offadj env s = (DRPM_ERR_OK, s') \<and> version (delta s) = 3 \<and>
        k < unat (offadj_elems_count (delta s') * 2) div 2 \<longrightarrow>
        (\<exists>t w. offadj_elems (delta s') = Some t \<and> tab_cells t (2 * k + 1) = Some w \<and>
           stored_signed
             (wire_word (drop 8 (strm s)) (unat (offadj_elems_count (delta s') * 2) div 2 + k))
             w)"
  proof (intro allI impI)
    fix k
    assume a: "rest_offadj env s = (DRPM_ERR_OK, s') \<and> version (delta s) = 3 \<and>
        k < unat (offadj_elems_count (delta s') * 2) div 2"
    then have "offadj_elems_count (delta s') \<noteq> 0"
      by auto
    with a have t: "offadj_elems (delta s') =
        Some \<lparr>tab_bytes = unat (offadj_elems_count (delta s') * 2 * 4),
              tab_cells = two_pass_cells id decode_signed
                (unat (offadj_elems_count (delta s') * 2) div 2) (drop 8 (strm s))\<rparr>"
      using rest_offadj_cells(2) by blast
    have "odd (2 * k + 1)" "(2 * k + 1) div 2 = k"
      by simp_all
    with a have "two_pass_cells id decode_signed
        (unat (offadj_elems_count (delta s') * 2) div 2) (drop 8 (strm s)) (2 * k + 1) =
        Some (decode_signed (wire_word (drop 8 (strm s))
          (unat (offadj_elems_count (delta s') * 2) div 2 + k)))"
      by (simp add: two_pass_cells_def)
    with t stored_signed_decode show "\<exists>t w. offadj_elems (delta s') = Some t \<and>
        tab_cells t (2 * k + 1) = Some w \<and>
        stored_signed
          (wire_word (drop 8 (strm s)) (unat (offadj_elems_count (delta s') * 2) div 2 + k)) w"
      by simp
  qed
  have p2: "\<forall>k. rest_ext_copies env s = (DRPM_ERR_OK, s') \<and>
        k < unat (ext_copies_count (delta s) * 2) div 2 \<longrightarrow>
        (\<exists>t w. ext_copies (delta s') = Some t \<and> tab_cells t (2 * k) = Some w \<and>
           stored_signed (wire_word (strm s) k) w)"
  proof (intro allI impI)
    fix k
    assume a: "rest_ext_copies env s = (DRPM_ERR_OK, s') \<and>
        k < unat (ext_copies_count (delta s) * 2) div 2"
    then have "ext_copies_count (delta s) * 2 \<noteq> 0"
      by auto
    with a have t: "ext_copies (delta s') =
        Some \<lparr>tab_bytes = unat (ext_copies_count (delta s) * 2 * 4),
              tab_cells = two_pass_cells decode_signed id
                (unat (ext_copies_count (delta s) * 2) div 2) (strm s)\<rparr>"
      using rest_ext_copies_cells(2) by blast
    from a have "two_pass_cells decode_signed id
        (unat (ext_copies_count (delta s) * 2) div 2) (strm s) (2 * k) =
        Some (decode_signed (wire_word (strm s) k))"
      by (simp add: two_pass_cells_def)
    with t stored_signed_decode show "\<exists>t w. ext_copies (delta s') = Some t \<and>
        tab_cells t (2 * k) = Some w \<and> stored_signed (wire_word (strm s) k) w"
      by simp
  qed
  from p1 p2 show ?thesis
    by (intro conjI)
qed

theorem signed_entries_stored_decoded_witness:
  "(\<exists>s s' t w. before_step ex_env delta_init ''standard.drpm'' 5 = Some s \<and>
      rest_offadj ex_env s = (DRPM_ERR_OK, s') \<and>
      wire_word (drop 8 (strm s)) 1 = 0x80000005 \<and>
      offadj_elems (delta s') = Some t \<and> tab_cells t 1 = Some w \<and> sint w = - 5) \<and>
   (\<exists>s s' t w. before_step ex_env delta_init ''standard.drpm'' 10 = Some s \<and>
      rest_ext_copies ex_env s = (DRPM_ERR_OK, s') \<and>
      wire_word (strm s) 1 = 0x80000002 \<and>
      ext_copies (delta s') = Some t \<and> tab_cells t 2 = Some w \<and> sint w = - 2)"
proof -
  have "\<exists>s s'. before_step ex_env delta_init ''standard.drpm'' 5 = Some s \<and>
      rest_offadj ex_env s = (DRPM_ERR_OK, s') \<and> version (delta s) = 3 \<and>
      offadj_elems_count (delta s') = 1 \<and> wire_word (drop 8 (strm s)) 1 = 0x80000005"
    by (simp add: before_step_def entry_defs step_defs prim_defs ex_defs Let_def wire_word_def)
  then obtain s s' where a: "before_step ex_env delta_init ''standard.drpm'' 5 = Some s"
    "rest_offadj ex_env s = (DRPM_ERR_OK, s')" "version (delta s) = 3"
    and c: "offadj_elems_count (delta s') = 1"
    and w: "wire_word (drop 8 (strm s)) 1 = 0x80000005"
    by blast
  from c have k: "(0::nat) < unat (offadj_elems_count (delta s') * 2) div 2"
    "unat (offadj_elems_count (delta s') * 2) div 2 + 0 = 1"
    by simp_all
  from signed_entries_stored_decoded [of ex_env s s', THEN conjunct1, THEN spec, of 0] a k(1)
  obtain t x where t: "offadj_elems (delta s') = Some t" "tab_cells t (2 * 0 + 1) = Some x"
    "stored_signed (wire_word (drop 8 (strm s))
       (unat (offadj_elems_count (delta s') * 2) div 2 + 0)) x"
    by blast
  from t(3) have "stored_signed 0x80000005 x"
    by (simp only: k(2) w)
  then have x5: "sint x = - 5"
    by (simp add: stored_signed_def)
  have "\<exists>u u'. before_step ex_env delta_init ''standard.drpm'' 10 = Some u \<and>
      rest_ext_copies ex_env u = (DRPM_ERR_OK, u') \<and>
      ext_copies_count (delta u) = 2 \<and> wire_word (strm u) 1 = 0x80000002"
    by (simp add: before_step_def entry_defs step_defs prim_defs ex_defs Let_def wire_word_def)
  then obtain u u' where b: "before_step ex_env delta_init ''standard.drpm'' 10 = Some u"
    "rest_ext_copies ex_env u = (DRPM_ERR_OK, u')"
    and d: "ext_copies_count (delta u) = 2"
    and v: "wire_word (strm u) 1 = 0x80000002"
    by blast
  from d have j: "(1::nat) < unat (ext_copies_count (delta u) * 2) div 2"
    by simp
  from signed_entries_stored_decoded [of ex_env u u', THEN conjunct2, THEN spec, of 1] b j
  obtain t' y where t': "ext_copies (delta u') = Some t'" "tab_cells t' (2 * 1) = Some y"
    "stored_signed (wire_word (strm u) 1) y"
    by blast
  from t'(3) have "stored_signed 0x80000002 y"
    by (simp only: v)
  then have y2: "sint y = - 2"
    by (simp add: stored_signed_def)
  from a w t x5 b v t' y2 show ?thesis
    by auto
qed

subsection \<open>The two passes and the size of a table\<close>




text \<open>
  C10: the claim is that the parser allocates for, and reads, \<open>(2 * c) mod 2 ^ 32\<close> words.
  It reads that many (see C6). But the block it asks of \<^verbatim>\<open>malloc\<close> has \<^verbatim>\<open>size * 4\<close>
  bytes, a second 32-bit product that wraps once the size reaches \<open>2 ^ 30\<close>. The file
  \<^verbatim>\<open>big.drpm\<close> declares \<open>c = 0x20000001\<close> internal copies: the size is \<open>2 ^ 30 + 2\<close>
  words, the block has 8 bytes, room for two words, and the first loop stores the words
  it reads into the cells 0, 2 and 4 before the stream ends.
\<close>

theorem table_block_too_small:
  "\<exists>s e s' t. before_step ex_env delta_init ''big.drpm'' 9 = Some s \<and>
       int_copies_count (delta s) = 0x20000001 \<and>
       unat (int_copies_count (delta s) * 2) = 2 ^ 30 + 2 \<and>
       rest_int_copies ex_env s = (e, s') \<and>
       int_copies (delta s') = Some t \<and> tab_bytes t = 8 \<and>
       tab_cells t 0 = Some 1 \<and> tab_cells t 2 = Some 2 \<and> tab_cells t 4 = Some 3"
  by (simp add: before_step_def entry_defs step_defs prim_defs ex_defs Let_def)

end
